theory Spec2Isabelle
  imports Main "HOL-Library.Word" "HOL-Library.Sublist" "HOL-Library.Monad_Syntax"
begin

unbundle bit_operations_syntax

section \<open>Go strings\<close>

text \<open>
  A Go string is a sequence of bytes; \<open>string\<close> (a list of 8-bit characters) is the same
  thing. A byte is read as a number with \<open>of_char\<close>.
\<close>

definition byte :: "char \<Rightarrow> nat" where
  "byte c = of_char c"

text \<open>
  \<^verbatim>\<open>strings.HasPrefix(s, prefix)\<close> is
  \<^verbatim>\<open>len(s) >= len(prefix) && s[:len(prefix)] == prefix\<close>, and
  \<^verbatim>\<open>strings.HasSuffix(s, suffix)\<close> is
  \<^verbatim>\<open>len(s) >= len(suffix) && s[len(s)-len(suffix):] == suffix\<close>.
\<close>

definition HasPrefix :: "string \<Rightarrow> string \<Rightarrow> bool" where
  "HasPrefix s p = (length s \<ge> length p \<and> take (length p) s = p)"

definition HasSuffix :: "string \<Rightarrow> string \<Rightarrow> bool" where
  "HasSuffix s x = (length s \<ge> length x \<and> drop (length s - length x) s = x)"

text \<open>
  Indexing \<^verbatim>\<open>s[i]\<close> panics when \<open>i\<close> is out of range; \<open>None\<close> is the panic.
\<close>

definition index :: "'a list \<Rightarrow> nat \<Rightarrow> 'a option" where
  "index xs i = (if i < length xs then Some (xs ! i) else None)"

section \<open>unicode/utf8: DecodeRuneInString\<close>

text \<open>
  The Go standard library's decoder, as \<open>Event.parser\<close> calls it. A rune is an
  \<^verbatim>\<open>int32\<close>. The table \<open>first\<close> gives, for a lead byte, the size of the sequence in
  its low three bits and the index of the accepted range of the second byte in its
  high four bits; \<open>0xF0\<close> marks ASCII and \<open>0xF1\<close> an invalid lead byte.
\<close>

type_synonym rune = "32 word"

definition RuneError :: rune where
  "RuneError = 0xFFFD"

definition first :: "nat \<Rightarrow> nat" where
  "first b =
     (if b < 0x80 then 0xF0
      else if b < 0xC2 then 0xF1
      else if b < 0xE0 then 0x02
      else if b = 0xE0 then 0x13
      else if b < 0xED then 0x03
      else if b = 0xED then 0x23
      else if b < 0xF0 then 0x03
      else if b = 0xF0 then 0x34
      else if b < 0xF4 then 0x04
      else if b = 0xF4 then 0x44
      else 0xF1)"

definition acceptRanges :: "nat \<Rightarrow> nat \<times> nat" where
  "acceptRanges i =
     (if i = 0 then (0x80, 0xBF)
      else if i = 1 then (0xA0, 0xBF)
      else if i = 2 then (0x80, 0x9F)
      else if i = 3 then (0x90, 0xBF)
      else if i = 4 then (0x80, 0x8F)
      else (0, 0))"

definition byte_at :: "string \<Rightarrow> nat \<Rightarrow> nat option" where
  "byte_at s i = map_option byte (index s i)"

definition DecodeRuneInString :: "string \<Rightarrow> (rune \<times> nat) option" where
  "DecodeRuneInString s =
     (let n = length s in
      if n < 1 then Some (RuneError, 0)
      else do {
        s0 \<leftarrow> byte_at s 0;
        let x = first s0;
        if x \<ge> 0xF0 then
          (let mask = signed_drop_bit 31 (push_bit 31 (of_nat x :: rune))
           in Some ((of_nat s0 AND NOT mask) OR (RuneError AND mask), 1))
        else
          (let sz = x AND 7; accept = acceptRanges (drop_bit 4 x) in
           if n < sz then Some (RuneError, 1)
           else do {
             s1 \<leftarrow> byte_at s 1;
             if s1 < fst accept \<or> snd accept < s1 then Some (RuneError, 1)
             else if sz \<le> 2 then
               Some (push_bit 6 (of_nat (s0 AND 0x1F)) OR of_nat (s1 AND 0x3F), 2)
             else do {
               s2 \<leftarrow> byte_at s 2;
               if s2 < 0x80 \<or> 0xBF < s2 then Some (RuneError, 1)
               else if sz \<le> 3 then
                 Some (push_bit 12 (of_nat (s0 AND 0x0F)) OR push_bit 6 (of_nat (s1 AND 0x3F))
                       OR of_nat (s2 AND 0x3F), 3)
               else do {
                 s3 \<leftarrow> byte_at s 3;
                 if s3 < 0x80 \<or> 0xBF < s3 then Some (RuneError, 1)
                 else
                   Some (push_bit 18 (of_nat (s0 AND 0x07)) OR push_bit 12 (of_nat (s1 AND 0x3F))
                         OR push_bit 6 (of_nat (s2 AND 0x3F)) OR of_nat (s3 AND 0x3F), 4)
               }
             }
           })
      })"

section \<open>Well-formed UTF-8, as a reference for the decoder\<close>

text \<open>
  The table of well-formed UTF-8 byte sequences of the Unicode Standard, read as a
  function: the code point that the sequence at the head of a byte string encodes, and
  the length of that sequence; \<open>None\<close> when the string does not begin with a well-formed
  sequence. It is written with arithmetic, not with the decoder's tables and masks.
\<close>

definition cont :: "nat \<Rightarrow> bool" where
  "cont b = (0x80 \<le> b \<and> b \<le> 0xBF)"

definition second_ok :: "nat \<Rightarrow> nat \<Rightarrow> bool" where
  "second_ok b0 b1 =
     (if b0 = 0xE0 then 0xA0 \<le> b1 \<and> b1 \<le> 0xBF
      else if b0 = 0xED then 0x80 \<le> b1 \<and> b1 \<le> 0x9F
      else if b0 = 0xF0 then 0x90 \<le> b1 \<and> b1 \<le> 0xBF
      else if b0 = 0xF4 then 0x80 \<le> b1 \<and> b1 \<le> 0x8F
      else cont b1)"

fun utf8_head :: "nat list \<Rightarrow> (nat \<times> nat) option" where
  "utf8_head [] = None"
| "utf8_head (b0 # bs) =
     (if b0 \<le> 0x7F then Some (b0, 1)
      else if 0xC2 \<le> b0 \<and> b0 \<le> 0xDF then
        (case bs of
           b1 # _ \<Rightarrow>
             if cont b1 then Some ((b0 - 0xC0) * 64 + (b1 - 0x80), 2) else None
         | _ \<Rightarrow> None)
      else if 0xE0 \<le> b0 \<and> b0 \<le> 0xEF then
        (case bs of
           b1 # b2 # _ \<Rightarrow>
             if second_ok b0 b1 \<and> cont b2
             then Some ((b0 - 0xE0) * 4096 + (b1 - 0x80) * 64 + (b2 - 0x80), 3) else None
         | _ \<Rightarrow> None)
      else if 0xF0 \<le> b0 \<and> b0 \<le> 0xF4 then
        (case bs of
           b1 # b2 # b3 # _ \<Rightarrow>
             if second_ok b0 b1 \<and> cont b2 \<and> cont b3
             then Some ((b0 - 0xF0) * 262144 + (b1 - 0x80) * 4096 + (b2 - 0x80) * 64
                        + (b3 - 0x80), 4)
             else None
         | _ \<Rightarrow> None)
      else None)"

section \<open>strconv: ParseUint and ParseInt at base 10\<close>

text \<open>
  The Go standard library's integer parser, as \<open>Event.toInt\<close> calls it: base 10 and bit
  size 0, which stands for the platform's \<^verbatim>\<open>int\<close> size \<open>IntSize\<close> (32 or 64), a
  parameter here. The accumulator is a \<^verbatim>\<open>uint64\<close>: a natural number, with the
  wrap-around of the addition written out. A syntax error returns 0; a range error
  returns the largest magnitude of the sign.
\<close>

datatype NumError = ErrSyntax | ErrRange

definition lower :: "nat \<Rightarrow> nat" where
  "lower c = c OR 0x20"

definition maxUint64 :: nat where
  "maxUint64 = 2 ^ 64 - 1"

fun ParseUint_loop :: "nat \<Rightarrow> nat \<Rightarrow> string \<Rightarrow> nat \<times> NumError option" where
  "ParseUint_loop maxVal n [] = (n, None)"
| "ParseUint_loop maxVal n (ch # cs) =
     (let c = byte ch in
      if \<not> (0x30 \<le> c \<and> c \<le> 0x39) \<and> \<not> (0x61 \<le> lower c \<and> lower c \<le> 0x7A)
      then (0, Some ErrSyntax)
      else
        (let d = (if 0x30 \<le> c \<and> c \<le> 0x39 then c - 0x30 else lower c - 0x61 + 10) in
         if d \<ge> 10 then (0, Some ErrSyntax)
         else if n \<ge> maxUint64 div 10 + 1 then (maxVal, Some ErrRange)
         else
           (let n10 = (n * 10) mod 2 ^ 64; n1 = (n10 + d) mod 2 ^ 64 in
            if n1 < n10 \<or> n1 > maxVal then (maxVal, Some ErrRange)
            else ParseUint_loop maxVal n1 cs)))"

definition ParseUint :: "nat \<Rightarrow> string \<Rightarrow> nat \<times> NumError option" where
  "ParseUint IntSize s =
     (if s = [] then (0, Some ErrSyntax)
      else ParseUint_loop ((2 ^ IntSize mod 2 ^ 64 + 2 ^ 64 - 1) mod 2 ^ 64) 0 s)"

text \<open>Reading a \<^verbatim>\<open>uint64\<close> or an overflowing result as an \<^verbatim>\<open>int64\<close>.\<close>

definition int64 :: "int \<Rightarrow> int" where
  "int64 v = (v + 2 ^ 63) mod 2 ^ 64 - 2 ^ 63"

definition ParseInt :: "nat \<Rightarrow> string \<Rightarrow> int \<times> NumError option" where
  "ParseInt IntSize s =
     (case s of
        [] \<Rightarrow> (0, Some ErrSyntax)
      | c # cs \<Rightarrow>
          (let neg = (c = CHR ''-'');
               s' = (if c = CHR ''+'' then cs else if c = CHR ''-'' then cs else s);
               (un, err) = ParseUint IntSize s'
           in if err = Some ErrSyntax then (0, err)
              else
                (let cutoff = 2 ^ (IntSize - 1) in
                 if \<not> neg \<and> un \<ge> cutoff then (int64 (int (cutoff - 1)), Some ErrRange)
                 else if neg \<and> un > cutoff then (int64 (- int64 (int cutoff)), Some ErrRange)
                 else
                   (let n = int64 (int un) in
                    (if neg then int64 (- n) else n, None)))))"

section \<open>Decimal numerals, as a reference for the integer parser\<close>

text \<open>
  A decimal numeral is an optional sign and at least one decimal digit; its value is
  read digit by digit. For a string that is not a numeral, the digits it begins with
  (after the sign) are its leading digits.
\<close>

definition is_digit :: "char \<Rightarrow> bool" where
  "is_digit ch = (0x30 \<le> byte ch \<and> byte ch \<le> 0x39)"

definition dec_from :: "nat \<Rightarrow> string \<Rightarrow> nat" where
  "dec_from n ds = foldl (\<lambda>m ch. m * 10 + (byte ch - 0x30)) n ds"

definition dec_value :: "string \<Rightarrow> nat" where
  "dec_value ds = dec_from 0 ds"

definition unsigned_part :: "string \<Rightarrow> string" where
  "unsigned_part s =
     (case s of
        [] \<Rightarrow> []
      | c # cs \<Rightarrow> if c = CHR ''+'' \<or> c = CHR ''-'' then cs else s)"

definition negative :: "string \<Rightarrow> bool" where
  "negative s = (case s of [] \<Rightarrow> False | c # cs \<Rightarrow> c = CHR ''-'')"

definition is_decimal :: "string \<Rightarrow> bool" where
  "is_decimal s = (unsigned_part s \<noteq> [] \<and> list_all is_digit (unsigned_part s))"

definition signed_value :: "string \<Rightarrow> int" where
  "signed_value s =
     (if negative s then - int (dec_value (unsigned_part s))
      else int (dec_value (unsigned_part s)))"

definition leading_digits :: "string \<Rightarrow> string" where
  "leading_digits s = takeWhile is_digit (unsigned_part s)"

section \<open>The event record and its parser: tk/event.go\<close>

text \<open>
  \<open>Widget\<close> is an interface of the package; \<open>'w\<close> stands for its values, and
  \<open>FindWidget\<close>, which looks a widget up by its path in the package's registry, is a
  parameter of the parser.
\<close>

record 'w Event =
  Type :: int
  Synthetic :: bool
  Widget :: 'w
  Timestamp :: int
  MouseButton :: int
  PosX :: int
  PosY :: int
  GlobalPosX :: int
  GlobalPosY :: int
  WheelDelta :: int
  KeyCode :: int
  KeySym :: string
  KeyText :: string
  KeyRune :: rune
  UserData :: string
  Focus :: bool
  Width :: int
  Height :: int
  Mode :: string
  OverrideRedirect :: string
  Place :: string
  State :: string

definition params :: string where
  "params = ''%T %E %W %t %b %x %y %D %k %K %A %d %f %w %h %m %o %p %s %X %Y''"

text \<open>
  \<^verbatim>\<open>int(v)\<close> keeps the low \<open>IntSize\<close> bits of an \<^verbatim>\<open>int64\<close>, read as signed.
\<close>

definition to_int :: "nat \<Rightarrow> int \<Rightarrow> int" where
  "to_int IntSize v = (v + 2 ^ (IntSize - 1)) mod 2 ^ IntSize - 2 ^ (IntSize - 1)"

definition toInt :: "nat \<Rightarrow> string \<Rightarrow> int" where
  "toInt IntSize s = to_int IntSize (fst (ParseInt IntSize s))"

definition toInt64 :: "nat \<Rightarrow> string \<Rightarrow> int" where
  "toInt64 IntSize s = fst (ParseInt IntSize s)"

definition toBool :: "string \<Rightarrow> bool" where
  "toBool s = (if s = ''1'' then True else False)"

definition toString :: "string \<Rightarrow> string" where
  "toString s = (if s = ''??'' then '''' else s)"

text \<open>
  The parser writes into the record it is given, field by field, in the source's order.
  Each \<^verbatim>\<open>args[i]\<close> may panic, and so may the decoder; \<open>None\<close> is the panic.
\<close>

definition parser ::
  "(string \<Rightarrow> 'w) \<Rightarrow> nat \<Rightarrow> 'w Event \<Rightarrow> string list \<Rightarrow> 'w Event option" where
  "parser FindWidget IntSize e args = do {
     a0 \<leftarrow> index args 0;
     let e = e\<lparr>Type := toInt IntSize a0\<rparr>;
     a1 \<leftarrow> index args 1;
     let e = e\<lparr>Synthetic := toBool a1\<rparr>;
     a2 \<leftarrow> index args 2;
     let e = e\<lparr>Widget := FindWidget a2\<rparr>;
     a3 \<leftarrow> index args 3;
     let e = e\<lparr>Timestamp := toInt64 IntSize a3\<rparr>;
     let e = (if Timestamp e < 0 then e\<lparr>Timestamp := 0\<rparr> else e);
     a4 \<leftarrow> index args 4;
     let e = e\<lparr>MouseButton := toInt IntSize a4\<rparr>;
     a5 \<leftarrow> index args 5;
     let e = e\<lparr>PosX := toInt IntSize a5\<rparr>;
     a6 \<leftarrow> index args 6;
     let e = e\<lparr>PosY := toInt IntSize a6\<rparr>;
     a7 \<leftarrow> index args 7;
     let e = e\<lparr>WheelDelta := toInt IntSize a7\<rparr>;
     a8 \<leftarrow> index args 8;
     let e = e\<lparr>KeyCode := toInt IntSize a8\<rparr>;
     a9 \<leftarrow> index args 9;
     let e = e\<lparr>KeySym := toString a9\<rparr>;
     a10 \<leftarrow> index args 10;
     let e = e\<lparr>KeyText := toString a10\<rparr>;
     e \<leftarrow> (if KeyText e \<noteq> '''' then
            map_option (\<lambda>r. e\<lparr>KeyRune := fst r\<rparr>) (DecodeRuneInString (KeyText e))
          else Some e);
     a11 \<leftarrow> index args 11;
     let e = e\<lparr>UserData := toString a11\<rparr>;
     a12 \<leftarrow> index args 12;
     let e = e\<lparr>Focus := toBool a12\<rparr>;
     a13 \<leftarrow> index args 13;
     let e = e\<lparr>Width := toInt IntSize a13\<rparr>;
     a14 \<leftarrow> index args 14;
     let e = e\<lparr>Height := toInt IntSize a14\<rparr>;
     a15 \<leftarrow> index args 15;
     let e = e\<lparr>Mode := toString a15\<rparr>;
     a16 \<leftarrow> index args 16;
     let e = e\<lparr>OverrideRedirect := toString a16\<rparr>;
     a17 \<leftarrow> index args 17;
     let e = e\<lparr>Place := toString a17\<rparr>;
     a18 \<leftarrow> index args 18;
     let e = e\<lparr>State := toString a18\<rparr>;
     a19 \<leftarrow> index args 19;
     let e = e\<lparr>GlobalPosX := toInt IntSize a19\<rparr>;
     a20 \<leftarrow> index args 20;
     let e = e\<lparr>GlobalPosY := toInt IntSize a20\<rparr>;
     Some e
   }"

text \<open>The zero value of the record, as \<^verbatim>\<open>var ev Event\<close> gives it.\<close>

definition zeroEvent :: "'w \<Rightarrow> 'w Event" where
  "zeroEvent nil =
     \<lparr>Type = 0, Synthetic = False, Widget = nil, Timestamp = 0, MouseButton = 0,
      PosX = 0, PosY = 0, GlobalPosX = 0, GlobalPosY = 0, WheelDelta = 0, KeyCode = 0,
      KeySym = '''', KeyText = '''', KeyRune = 0, UserData = '''', Focus = False,
      Width = 0, Height = 0, Mode = '''', OverrideRedirect = '''', Place = '''',
      State = ''''\<rparr>"

section \<open>Event syntax: tk/event.go\<close>

definition IsEvent :: "string \<Rightarrow> bool" where
  "IsEvent event = (HasPrefix event ''<'' \<and> HasSuffix event ''>'')"

definition IsVirtualEvent :: "string \<Rightarrow> bool" where
  "IsVirtualEvent event = (HasPrefix event ''<<'' \<and> HasSuffix event ''>>'')"

section \<open>The collaborators: interpreter, file system, image decoder\<close>

text \<open>
  The embedded interpreter, the file system and the image decoder are not part of the
  two files. What they answer is given by an environment of oracles, each of which sees
  the calls made so far; what the package asks of them is recorded, in order, in the
  journal of the world. \<open>'w\<close> stands for widgets, \<open>'f\<close> for the callbacks of the
  application and \<open>'i\<close> for decoded images.
\<close>

datatype error = ErrInvalid | os_ErrInvalid | NewImage_failed | Foreign string

datatype 'i call =
    CreateAction string
  | Eval string
  | FindPhoto string
  | PutImage nat 'i
  | DumpError error
  | Open string
  | Decode string
  | Close string

record ('w, 'i) env =
  IntSize :: nat
  IsPathSeparator :: "char \<Rightarrow> bool"
  FindWidget :: "string \<Rightarrow> 'w option"
  eval_result :: "'i call list \<Rightarrow> string \<Rightarrow> error option"
  photo_of :: "'i call list \<Rightarrow> string \<Rightarrow> nat option"
  put_result :: "'i call list \<Rightarrow> nat \<Rightarrow> 'i \<Rightarrow> error option"
  open_result :: "'i call list \<Rightarrow> string \<Rightarrow> error option"
  decode_result :: "'i call list \<Rightarrow> string \<Rightarrow> error + 'i"
  bind_id :: "nat \<Rightarrow> string"
  image_id :: "nat \<Rightarrow> string"

text \<open>
  An action of the interpreter is the closure that \<open>addEventHelper\<close> registers: it holds
  the \<open>Event\<close> variable it captured and the callback it calls. \<open>bindtab\<close> is the
  interpreter's table of the scripts bound to a tag and an event.
\<close>

record ('w, 'f) action =
  cell :: "'w option Event"
  callback :: 'f

record ('w, 'f, 'i) world =
  journal :: "'i call list"
  actions :: "string \<rightharpoonup> ('w, 'f) action"
  bindtab :: "string \<times> string \<Rightarrow> string list"
  bind_seq :: nat
  image_seq :: nat

text \<open>
  Modelled from the spec: \<open>mainInterp.CreateAction\<close> (package interp, not among the
  sources) registers an interpreter-level callback action under an identifier.
\<close>

definition interp_CreateAction ::
  "string \<Rightarrow> ('w, 'f) action \<Rightarrow> ('w, 'f, 'i) world \<Rightarrow> ('w, 'f, 'i) world" where
  "interp_CreateAction fnid a w =
     w\<lparr>journal := journal w @ [CreateAction fnid], actions := (actions w)(fnid \<mapsto> a)\<rparr>"

text \<open>
  Modelled from the spec: \<open>eval\<close> (not among the sources) hands a script to the
  interpreter: script in, error out.
\<close>

definition eval ::
  "('w, 'i) env \<Rightarrow> string \<Rightarrow> ('w, 'f, 'i) world \<Rightarrow> error option \<times> ('w, 'f, 'i) world" where
  "eval E script w = (eval_result E (journal w) script, w\<lparr>journal := journal w @ [Eval script]\<rparr>)"

text \<open>
  Modelled from the spec: \<open>makeBindEventId\<close> and \<open>MakeImageId\<close> (not among the sources)
  generate identifiers from process-wide counters.
\<close>

definition makeBindEventId ::
  "('w, 'i) env \<Rightarrow> ('w, 'f, 'i) world \<Rightarrow> string \<times> ('w, 'f, 'i) world" where
  "makeBindEventId E w = (bind_id E (bind_seq w), w\<lparr>bind_seq := Suc (bind_seq w)\<rparr>)"

definition MakeImageId ::
  "('w, 'i) env \<Rightarrow> ('w, 'f, 'i) world \<Rightarrow> string \<times> ('w, 'f, 'i) world" where
  "MakeImageId E w = (image_id E (image_seq w), w\<lparr>image_seq := Suc (image_seq w)\<rparr>)"

text \<open>
  What the interpreter does with \<^verbatim>\<open>bind tag event {body}\<close>, by the rule of Tk's
  \<^verbatim>\<open>bind\<close> command: an empty body removes the binding, a body whose first character
  is \<open>+\<close> is added to the scripts already bound, any other body replaces them.
\<close>

definition tk_bind :: "string list \<Rightarrow> string \<Rightarrow> string list" where
  "tk_bind old body =
     (case body of
        [] \<Rightarrow> []
      | c # rest \<Rightarrow> if c = CHR ''+'' then old @ [rest] else [body])"

definition eval_bind ::
  "('w, 'i) env \<Rightarrow> string \<Rightarrow> string \<Rightarrow> string \<Rightarrow> ('w, 'f, 'i) world
   \<Rightarrow> error option \<times> ('w, 'f, 'i) world" where
  "eval_bind E tag event body w =
     (let (r, w1) = eval E (''bind '' @ tag @ '' '' @ event @ '' {'' @ body @ ''}'') w
      in (r, if r = None
             then w1\<lparr>bindtab := (bindtab w1)((tag, event) := tk_bind (bindtab w1 (tag, event)) body)\<rparr>
             else w1))"

section \<open>Binding events: tk/event.go\<close>

definition bindEventHelper ::
  "('w, 'i) env \<Rightarrow> string \<Rightarrow> string \<Rightarrow> string \<Rightarrow> ('w, 'f) action \<Rightarrow> ('w, 'f, 'i) world
   \<Rightarrow> error option \<times> ('w, 'f, 'i) world" where
  "bindEventHelper E tag event fnid a w =
     eval_bind E tag event (fnid @ '' '' @ params) (interp_CreateAction fnid a w)"

definition addEventHelper ::
  "('w, 'i) env \<Rightarrow> string \<Rightarrow> string \<Rightarrow> string \<Rightarrow> ('w, 'f) action \<Rightarrow> ('w, 'f, 'i) world
   \<Rightarrow> error option \<times> ('w, 'f, 'i) world" where
  "addEventHelper E tag event fnid a w =
     eval_bind E tag event (''+'' @ fnid @ '' '' @ params) (interp_CreateAction fnid a w)"

definition BindEvent ::
  "('w, 'i) env \<Rightarrow> string \<Rightarrow> string \<Rightarrow> 'f \<Rightarrow> ('w, 'f, 'i) world
   \<Rightarrow> error option \<times> ('w, 'f, 'i) world" where
  "BindEvent E tag event fn w =
     (if tag = '''' \<or> \<not> IsEvent event then (Some ErrInvalid, w)
      else
        (let (fnid, w1) = makeBindEventId E w;
             ev = zeroEvent None
         in addEventHelper E tag event fnid \<lparr>cell = ev, callback = fn\<rparr> w1))"

definition ClearBindEvent ::
  "('w, 'i) env \<Rightarrow> string \<Rightarrow> string \<Rightarrow> ('w, 'f, 'i) world
   \<Rightarrow> error option \<times> ('w, 'f, 'i) world" where
  "ClearBindEvent E tag event w =
     (if tag = '''' \<or> \<not> IsEvent event then (Some ErrInvalid, w)
      else eval_bind E tag event '''' w)"

text \<open>
  A dispatch: the interpreter calls the action \<open>fnid\<close> with the substituted fields. The
  closure parses them into the variable it captured and calls the callback with a
  pointer to that variable; the result is the callback and the record it is given, and
  the world in which the variable holds what was parsed. \<open>None\<close> is a panic or an
  unknown action.
\<close>

definition dispatch ::
  "('w, 'i) env \<Rightarrow> string \<Rightarrow> string list \<Rightarrow> ('w, 'f, 'i) world
   \<Rightarrow> (('f \<times> 'w option Event) \<times> ('w, 'f, 'i) world) option" where
  "dispatch E fnid args w = do {
     a \<leftarrow> actions w fnid;
     ev \<leftarrow> parser (FindWidget E) (IntSize E) (cell a) args;
     Some ((callback a, ev), w\<lparr>actions := (actions w)(fnid \<mapsto> a\<lparr>cell := ev\<rparr>)\<rparr>)
   }"

text \<open>
  A run of dispatches of one action, one after the other: what the callback is given
  each time, in order.
\<close>

fun dispatches ::
  "('w, 'i) env \<Rightarrow> string \<Rightarrow> string list list \<Rightarrow> ('w, 'f, 'i) world
   \<Rightarrow> (('f \<times> 'w option Event) list \<times> ('w, 'f, 'i) world) option" where
  "dispatches E fnid [] w = Some ([], w)"
| "dispatches E fnid (args # rest) w =
     (case dispatch E fnid args w of
        None \<Rightarrow> None
      | Some (seen, w1) \<Rightarrow>
          (case dispatches E fnid rest w1 of
             None \<Rightarrow> None
           | Some (others, w2) \<Rightarrow> Some (seen # others, w2)))"

section \<open>Sample inputs\<close>

text \<open>
  An environment in which every collaborator succeeds, an empty world, and the fields
  that the interpreter substitutes for a press of the key \<open>a\<close>, for a mouse button
  (no key text), and for a key whose text is the single invalid byte \<open>0xFF\<close>.
\<close>

definition env0 :: "(unit, nat list) env" where
  "env0 =
     \<lparr>IntSize = 64,
      IsPathSeparator = (\<lambda>c. c = CHR ''/''),
      FindWidget = (\<lambda>p. None),
      eval_result = (\<lambda>j s. None),
      photo_of = (\<lambda>j i. Some 7),
      put_result = (\<lambda>j p img. None),
      open_result = (\<lambda>j f. None),
      decode_result = (\<lambda>j f. Inr [1, 2, 3]),
      bind_id = (\<lambda>n. ''bind'' @ replicate n (CHR ''x'')),
      image_id = (\<lambda>n. ''image'' @ replicate n (CHR ''x''))\<rparr>"

definition world0 :: "(unit, nat, nat list) world" where
  "world0 =
     \<lparr>journal = [], actions = Map.empty, bindtab = (\<lambda>k. []), bind_seq = 0, image_seq = 0\<rparr>"

definition key_a :: "string list" where
  "key_a =
     [''2'', ''0'', ''.b'', ''1234'', ''??'', ''10'', ''20'', ''??'', ''38'', ''a'', ''a'',
      ''??'', ''??'', ''??'', ''??'', ''??'', ''??'', ''??'', ''16'', ''100'', ''200'']"

definition button_1 :: "string list" where
  "button_1 =
     [''4'', ''0'', ''.b'', ''1300'', ''1'', ''10'', ''20'', ''??'', ''??'', ''??'', ''??'',
      ''??'', ''??'', ''??'', ''??'', ''??'', ''??'', ''??'', ''256'', ''100'', ''200'']"

definition key_invalid :: "string list" where
  "key_invalid =
     [''2'', ''0'', ''.b'', ''1234'', ''??'', ''10'', ''20'', ''??'', ''38'', ''??'', [CHR 0xFF],
      ''??'', ''??'', ''??'', ''??'', ''??'', ''??'', ''??'', ''16'', ''100'', ''200'']"

section \<open>Images: tk/image.go\<close>

text \<open>
  \<^verbatim>\<open>filepath.Ext\<close> of the Go standard library: the suffix that begins at the last dot
  of the last path element, empty when that element has no dot. The loop runs from the
  last byte down, \<open>i\<close> bytes still to look at.
\<close>

fun Ext_loop :: "(char \<Rightarrow> bool) \<Rightarrow> string \<Rightarrow> nat \<Rightarrow> string" where
  "Ext_loop sep path 0 = ''''"
| "Ext_loop sep path (Suc i) =
     (if sep (path ! i) then ''''
      else if path ! i = CHR ''.'' then drop i path
      else Ext_loop sep path i)"

definition Ext :: "(char \<Rightarrow> bool) \<Rightarrow> string \<Rightarrow> string" where
  "Ext sep path = Ext_loop sep path (length path)"

text \<open>\<^verbatim>\<open>strings.Join\<close> of the Go standard library.\<close>

fun Join :: "string list \<Rightarrow> string \<Rightarrow> string" where
  "Join [] sep = ''''"
| "Join [x] sep = x"
| "Join (x # y # ys) sep = x @ sep @ Join (y # ys) sep"

text \<open>
  An option value is an \<^verbatim>\<open>interface{}\<close>: a string, or another value (the gamma, a
  \<^verbatim>\<open>float64\<close>), which is carried as the text that \<^verbatim>\<open>%v\<close> prints for it. An option
  list may hold nil pointers.
\<close>

datatype optvalue = StringValue string | OtherValue string

record ImageOpt =
  key :: string
  val :: optvalue

fun fmt_v :: "optvalue \<Rightarrow> string" where
  "fmt_v (StringValue s) = s"
| "fmt_v (OtherValue t) = t"

record Image =
  Image_id :: string
  Image_photo :: nat

text \<open>
  The file is opened and closed with the operating system (\<^verbatim>\<open>os.Open\<close>,
  \<^verbatim>\<open>File.Close\<close>) and decoded with \<^verbatim>\<open>image.Decode\<close> of the Go standard library;
  each call is journalled and answered by its oracle.
\<close>

definition os_Open ::
  "('w, 'i) env \<Rightarrow> string \<Rightarrow> ('w, 'f, 'i) world \<Rightarrow> error option \<times> ('w, 'f, 'i) world" where
  "os_Open E file w = (open_result E (journal w) file, w\<lparr>journal := journal w @ [Open file]\<rparr>)"

definition image_Decode ::
  "('w, 'i) env \<Rightarrow> string \<Rightarrow> ('w, 'f, 'i) world \<Rightarrow> (error + 'i) \<times> ('w, 'f, 'i) world" where
  "image_Decode E file w =
     (decode_result E (journal w) file, w\<lparr>journal := journal w @ [Decode file]\<rparr>)"

definition file_Close :: "string \<Rightarrow> ('w, 'f, 'i) world \<Rightarrow> ('w, 'f, 'i) world" where
  "file_Close file w = w\<lparr>journal := journal w @ [Close file]\<rparr>"

text \<open>
  Modelled from the spec: \<open>interp.FindPhoto\<close>, \<open>Photo.PutImage\<close> and \<open>dumpError\<close> (not
  among the sources) are the collaborator's lookup of a photo handle by identifier, its
  pixel put primitive, and the package's diagnostic sink for errors that are not
  returned.
\<close>

definition interp_FindPhoto ::
  "('w, 'i) env \<Rightarrow> string \<Rightarrow> ('w, 'f, 'i) world \<Rightarrow> nat option \<times> ('w, 'f, 'i) world" where
  "interp_FindPhoto E i w = (photo_of E (journal w) i, w\<lparr>journal := journal w @ [FindPhoto i]\<rparr>)"

definition photo_PutImage ::
  "('w, 'i) env \<Rightarrow> nat \<Rightarrow> 'i \<Rightarrow> ('w, 'f, 'i) world \<Rightarrow> error option \<times> ('w, 'f, 'i) world" where
  "photo_PutImage E p img w =
     (put_result E (journal w) p img, w\<lparr>journal := journal w @ [PutImage p img]\<rparr>)"

definition dumpError :: "error \<Rightarrow> ('w, 'f, 'i) world \<Rightarrow> ('w, 'f, 'i) world" where
  "dumpError e w = w\<lparr>journal := journal w @ [DumpError e]\<rparr>"

text \<open>The loop of \<open>NewImage\<close> over its options: the identifier and the option texts.\<close>

fun NewImage_loop ::
  "string \<Rightarrow> string list \<Rightarrow> ImageOpt option list \<Rightarrow> string \<times> string list" where
  "NewImage_loop iid optList [] = (iid, optList)"
| "NewImage_loop iid optList (None # rest) = NewImage_loop iid optList rest"
| "NewImage_loop iid optList (Some opt # rest) =
     (if key opt = ''id'' then
        (case val opt of
           StringValue v \<Rightarrow> NewImage_loop v optList rest
         | OtherValue _ \<Rightarrow> NewImage_loop iid optList rest)
      else
        NewImage_loop iid (optList @ [''-'' @ key opt @ '' {'' @ fmt_v (val opt) @ ''}'']) rest)"

definition NewImage ::
  "('w, 'i) env \<Rightarrow> ImageOpt option list \<Rightarrow> ('w, 'f, 'i) world
   \<Rightarrow> Image option \<times> ('w, 'f, 'i) world" where
  "NewImage E options w =
     (let (iid, optList) = NewImage_loop '''' [] options;
          (iid, w) = (if iid = '''' then MakeImageId E w else (iid, w));
          script = ''image create photo '' @ iid;
          script = (if length optList > 0 then script @ '' '' @ Join optList '' '' else script);
          (err, w) = eval E script w
      in if err \<noteq> None then (None, w)
         else
           (let (photo, w) = interp_FindPhoto E iid w
            in case photo of
                 None \<Rightarrow> (None, w)
               | Some p \<Rightarrow> (Some \<lparr>Image_id = iid, Image_photo = p\<rparr>, w)))"

definition SetImage ::
  "('w, 'i) env \<Rightarrow> Image \<Rightarrow> 'i \<Rightarrow> ('w, 'f, 'i) world \<Rightarrow> ('w, 'f, 'i) world" where
  "SetImage E i img w =
     (let (err, w) = photo_PutImage E (Image_photo i) img w
      in case err of None \<Rightarrow> w | Some e \<Rightarrow> dumpError e w)"

definition LoadImage ::
  "('w, 'i) env \<Rightarrow> string \<Rightarrow> ImageOpt option list \<Rightarrow> ('w, 'f, 'i) world
   \<Rightarrow> (error + Image) \<times> ('w, 'f, 'i) world" where
  "LoadImage E file options w =
     (if file = '''' then (Inl os_ErrInvalid, w)
      else
        (let (r, w) =
               (if Ext (IsPathSeparator E) file = ''.gif'' then
                  (Inr (None, options @ [Some \<lparr>key = ''file'', val = StringValue file\<rparr>]), w)
                else
                  (let (oerr, w) = os_Open E file w
                   in case oerr of
                        Some err \<Rightarrow> (Inl err, w)
                      | None \<Rightarrow>
                          (let (d, w) = image_Decode E file w;
                               w = file_Close file w
                           in case d of
                                Inl err \<Rightarrow> (Inl err, w)
                              | Inr im \<Rightarrow> (Inr (Some im, options), w))))
         in case r of
              Inl err \<Rightarrow> (Inl err, w)
            | Inr (fileImage, options) \<Rightarrow>
                (let (im, w) = NewImage E options w
                 in case im of
                      None \<Rightarrow> (Inl NewImage_failed, w)
                    | Some im \<Rightarrow>
                        (case fileImage of
                           Some img \<Rightarrow> (Inr im, SetImage E im img w)
                         | None \<Rightarrow> (Inr im, w)))))"

section \<open>Properties of the event syntax check\<close>

lemma HasPrefix_iff_prefix: "HasPrefix s p \<longleftrightarrow> prefix p s"
proof
  assume "HasPrefix s p"
  then have "take (length p) s = p"
    by (simp add: HasPrefix_def)
  then have "s = p @ drop (length p) s"
    by (metis append_take_drop_id)
  then show "prefix p s"
    by (metis prefixI)
next
  assume "prefix p s"
  then obtain t where "s = p @ t"
    by (auto simp: prefix_def)
  then show "HasPrefix s p"
    by (simp add: HasPrefix_def)
qed

lemma HasSuffix_iff_suffix: "HasSuffix s x \<longleftrightarrow> suffix x s"
proof
  assume "HasSuffix s x"
  then have "drop (length s - length x) s = x"
    by (simp add: HasSuffix_def)
  then have "s = take (length s - length x) s @ x"
    by (metis append_take_drop_id)
  then show "suffix x s"
    by (metis suffixI)
next
  assume "suffix x s"
  then obtain t where "s = t @ x"
    by (auto simp: suffix_def)
  then show "HasSuffix s x"
    by (simp add: HasSuffix_def)
qed

text \<open>
  C7: \<open>IsEvent s\<close> holds exactly when \<open>s\<close> starts with \<open><\<close> and ends with \<open>>\<close>, and
  \<open>IsVirtualEvent s\<close> exactly when \<open>s\<close> starts with \<open><<\<close> and ends with \<open>>>\<close>; nothing
  else is checked. On the four example strings: \<open><Button-1>\<close> is an event and
  \<open>Button-1\<close> is not, \<open><<Paste>>\<close> is a virtual event and \<open><Paste>\<close> is not.
\<close>

theorem IsEvent_bracket_check:
  "(IsEvent s \<longleftrightarrow> prefix ''<'' s \<and> suffix ''>'' s)
   \<and> (IsVirtualEvent s \<longleftrightarrow> prefix ''<<'' s \<and> suffix ''>>'' s)
   \<and> IsEvent ''<Button-1>'' \<and> \<not> IsEvent ''Button-1''
   \<and> IsVirtualEvent ''<<Paste>>'' \<and> \<not> IsVirtualEvent ''<Paste>''"
proof -
  have "IsEvent s \<longleftrightarrow> prefix ''<'' s \<and> suffix ''>'' s"
    by (simp only: IsEvent_def HasPrefix_iff_prefix HasSuffix_iff_suffix)
  moreover have "IsVirtualEvent s \<longleftrightarrow> prefix ''<<'' s \<and> suffix ''>>'' s"
    by (simp only: IsVirtualEvent_def HasPrefix_iff_prefix HasSuffix_iff_suffix)
  moreover have "IsEvent ''<Button-1>''" "\<not> IsEvent ''Button-1''"
    by (simp_all add: IsEvent_def HasPrefix_def HasSuffix_def)
  moreover have "IsVirtualEvent ''<<Paste>>''" "\<not> IsVirtualEvent ''<Paste>''"
    by (simp_all add: IsVirtualEvent_def HasPrefix_def HasSuffix_def)
  ultimately show ?thesis
    by blast
qed

text \<open>
  C10: every string accepted by \<open>IsVirtualEvent\<close> is accepted by \<open>IsEvent\<close>, so a virtual
  event name passes each gate that asks for \<open>IsEvent\<close> only.
\<close>

theorem IsVirtualEvent_imp_IsEvent: "IsVirtualEvent s \<Longrightarrow> IsEvent s"
proof -
  assume v: "IsVirtualEvent s"
  from v have "prefix ''<<'' s"
    by (simp add: IsVirtualEvent_def HasPrefix_iff_prefix)
  then obtain t where t: "s = ''<<'' @ t"
    by (auto simp: prefix_def)
  from v have "suffix ''>>'' s"
    by (simp add: IsVirtualEvent_def HasSuffix_iff_suffix)
  then obtain u where u: "s = u @ ''>>''"
    by (auto simp: suffix_def)
  have "prefix ''<'' s"
    using t by (simp add: prefix_def)
  moreover have "s = (u @ ''>'') @ ''>''"
    using u by simp
  then have "suffix ''>'' s"
    by (metis suffixI)
  ultimately show "IsEvent s"
    by (simp add: IsEvent_def HasPrefix_iff_prefix HasSuffix_iff_suffix)
qed

theorem IsVirtualEvent_imp_IsEvent_witness:
  "IsVirtualEvent ''<<Paste>>'' \<and> IsEvent ''<<Paste>>''"
proof -
  have v: "IsVirtualEvent ''<<Paste>>''"
    by (simp add: IsVirtualEvent_def HasPrefix_def HasSuffix_def)
  from IsVirtualEvent_imp_IsEvent [OF v] v show ?thesis
    by simp
qed

section \<open>The decoder against well-formed UTF-8\<close>

lemma and_low_bits:
  fixes a :: nat
  shows "a AND 0x3F = a mod 64" "a AND 0x1F = a mod 32" "a AND 0x0F = a mod 16" "a AND 0x07 = a mod 8"
proof -
  have m: "(0x3F::nat) = mask 6" "(0x1F::nat) = mask 5" "(0x0F::nat) = mask 4" "(0x07::nat) = mask 3"
    by (simp_all add: mask_eq_exp_minus_1)
  show "a AND 0x3F = a mod 64" "a AND 0x1F = a mod 32" "a AND 0x0F = a mod 16" "a AND 0x07 = a mod 8"
    unfolding m by (simp_all add: take_bit_eq_mask [symmetric] take_bit_eq_mod)
qed

lemma or_push_bit_small:
  fixes a b :: nat
  assumes "b < 2 ^ n"
  shows "push_bit n a OR b = a * 2 ^ n + b"
proof -
  have tb: "take_bit n b = b"
    using assms by (simp add: take_bit_nat_eq_self)
  have "push_bit n a + b = push_bit n a OR b"
  proof (rule disjunctive_add)
    fix k
    show "\<not> bit (push_bit n a) k \<or> \<not> bit b k"
    proof (cases "k < n")
      case True
      then show ?thesis by (simp add: bit_push_bit_iff)
    next
      case False
      have "bit b k = bit (take_bit n b) k" by (simp add: tb)
      then show ?thesis using False by (simp add: bit_take_bit_iff)
    qed
  qed
  then show ?thesis by (simp add: push_bit_eq_mult)
qed

lemma rune2:
  "(push_bit 6 (of_nat (a AND 0x1F)) OR of_nat (b AND 0x3F) :: rune) = of_nat (a mod 32 * 64 + b mod 64)"
proof -
  have "push_bit 6 (a mod 32) OR (b mod 64) = a mod 32 * 2 ^ 6 + b mod 64"
    by (rule or_push_bit_small) simp
  then show ?thesis
    by (simp add: and_low_bits push_bit_of_nat of_nat_or_eq [symmetric] del: of_nat_add of_nat_mult)
qed

lemma rune3:
  "(push_bit 12 (of_nat (a AND 0x0F)) OR push_bit 6 (of_nat (b AND 0x3F)) OR of_nat (c AND 0x3F) :: rune)
   = of_nat (a mod 16 * 4096 + b mod 64 * 64 + c mod 64)"
proof -
  have 1: "push_bit 6 (b mod 64) OR (c mod 64) = b mod 64 * 2 ^ 6 + c mod 64"
    by (rule or_push_bit_small) simp
  have "b mod 64 * 2 ^ 6 + c mod 64 < 2 ^ 12"
  proof -
    have "b mod 64 < 64" "c mod 64 < 64" by simp_all
    then show ?thesis by simp
  qed
  then have "push_bit 12 (a mod 16) OR (b mod 64 * 2 ^ 6 + c mod 64) = a mod 16 * 2 ^ 12 + (b mod 64 * 2 ^ 6 + c mod 64)"
    by (rule or_push_bit_small)
  with 1 have "push_bit 12 (a mod 16) OR push_bit 6 (b mod 64) OR (c mod 64) = a mod 16 * 4096 + b mod 64 * 64 + c mod 64"
    by simp
  then show ?thesis
    by (simp add: and_low_bits push_bit_of_nat of_nat_or_eq [symmetric] del: of_nat_add of_nat_mult)
qed

lemma rune4:
  "(push_bit 18 (of_nat (a AND 0x07)) OR push_bit 12 (of_nat (b AND 0x3F)) OR push_bit 6 (of_nat (c AND 0x3F)) OR of_nat (d AND 0x3F) :: rune)
   = of_nat (a mod 8 * 262144 + b mod 64 * 4096 + c mod 64 * 64 + d mod 64)"
proof -
  have 1: "push_bit 6 (c mod 64) OR (d mod 64) = c mod 64 * 2 ^ 6 + d mod 64"
    by (rule or_push_bit_small) simp
  have "c mod 64 * 2 ^ 6 + d mod 64 < 2 ^ 12"
  proof -
    have "c mod 64 < 64" "d mod 64 < 64" by simp_all
    then show ?thesis by simp
  qed
  then have 2: "push_bit 12 (b mod 64) OR (c mod 64 * 2 ^ 6 + d mod 64) = b mod 64 * 2 ^ 12 + (c mod 64 * 2 ^ 6 + d mod 64)"
    by (rule or_push_bit_small)
  have "b mod 64 * 2 ^ 12 + (c mod 64 * 2 ^ 6 + d mod 64) < 2 ^ 18"
  proof -
    have "b mod 64 < 64" "c mod 64 < 64" "d mod 64 < 64" by simp_all
    then show ?thesis by simp
  qed
  then have 3: "push_bit 18 (a mod 8) OR (b mod 64 * 2 ^ 12 + (c mod 64 * 2 ^ 6 + d mod 64)) = a mod 8 * 2 ^ 18 + (b mod 64 * 2 ^ 12 + (c mod 64 * 2 ^ 6 + d mod 64))"
    by (rule or_push_bit_small)
  from 1 2 3 have "push_bit 18 (a mod 8) OR push_bit 12 (b mod 64) OR push_bit 6 (c mod 64) OR (d mod 64)
     = a mod 8 * 262144 + b mod 64 * 4096 + c mod 64 * 64 + d mod 64"
    by simp
  then show ?thesis
    by (simp add: and_low_bits push_bit_of_nat of_nat_or_eq [symmetric] del: of_nat_add of_nat_mult)
qed


lemma byte_at_Some: "i < length s \<Longrightarrow> byte_at s i = Some (byte (s ! i))"
  by (simp add: byte_at_def index_def)

lemma first_ascii: "b \<le> 0x7F \<Longrightarrow> first b = 0xF0"
  by (simp add: first_def)

lemma first_bad: "0x80 \<le> b \<Longrightarrow> b < 0xC2 \<or> 0xF4 < b \<Longrightarrow> first b = 0xF1"
  by (auto simp: first_def)

lemma first_2: "0xC2 \<le> b \<Longrightarrow> b \<le> 0xDF \<Longrightarrow> first b = 0x02"
  by (simp add: first_def)

lemma first_3:
  "0xE0 \<le> b \<Longrightarrow> b \<le> 0xEF \<Longrightarrow>
   first b = (if b = 0xE0 then 0x13 else if b = 0xED then 0x23 else 0x03)"
  by (simp add: first_def)

lemma first_4:
  "0xF0 \<le> b \<Longrightarrow> b \<le> 0xF4 \<Longrightarrow>
   first b = (if b = 0xF0 then 0x34 else if b = 0xF4 then 0x44 else 0x04)"
  by (simp add: first_def)

lemmas Decode_unfold = DecodeRuneInString_def [unfolded rune2 rune3 rune4]

lemma Decode_ascii:
  assumes "byte c0 \<le> 0x7F"
  shows "DecodeRuneInString (c0 # cs) = Some (of_nat (byte c0), 1)"
  by (simp add: DecodeRuneInString_def byte_at_Some first_ascii [OF assms])

lemma Decode_bad_lead:
  assumes "0x80 \<le> byte c0" "byte c0 < 0xC2 \<or> 0xF4 < byte c0"
  shows "DecodeRuneInString (c0 # cs) = Some (RuneError, 1)"
  by (simp add: DecodeRuneInString_def byte_at_Some first_bad [OF assms])

lemma Decode_2_short:
  assumes "0xC2 \<le> byte c0" "byte c0 \<le> 0xDF"
  shows "DecodeRuneInString [c0] = Some (RuneError, 1)"
  by (simp add: DecodeRuneInString_def byte_at_Some first_2 [OF assms])

lemma Decode_2:
  assumes "0xC2 \<le> byte c0" "byte c0 \<le> 0xDF"
  shows "DecodeRuneInString (c0 # c1 # cs) =
    Some (if cont (byte c1) then (of_nat (byte c0 mod 32 * 64 + byte c1 mod 64), 2) else (RuneError, 1))"
  by (simp add: Decode_unfold byte_at_Some first_2 [OF assms] acceptRanges_def cont_def
      del: of_nat_add of_nat_mult)

lemma Decode_3_short:
  assumes "0xE0 \<le> byte c0" "byte c0 \<le> 0xEF" "length cs < 2"
  shows "DecodeRuneInString (c0 # cs) = Some (RuneError, 1)"
  using assms(3) by (simp add: DecodeRuneInString_def byte_at_Some first_3 [OF assms(1,2)])

lemma Decode_3:
  assumes "0xE0 \<le> byte c0" "byte c0 \<le> 0xEF"
  shows "DecodeRuneInString (c0 # c1 # c2 # cs) =
    Some (if second_ok (byte c0) (byte c1) \<and> cont (byte c2)
          then (of_nat (byte c0 mod 16 * 4096 + byte c1 mod 64 * 64 + byte c2 mod 64), 3)
          else (RuneError, 1))"
  using assms
  by (simp add: Decode_unfold byte_at_Some first_3 [OF assms] acceptRanges_def cont_def
      second_ok_def not_less del: of_nat_add of_nat_mult)

lemma Decode_4_short:
  assumes "0xF0 \<le> byte c0" "byte c0 \<le> 0xF4" "length cs < 3"
  shows "DecodeRuneInString (c0 # cs) = Some (RuneError, 1)"
  using assms(3) by (simp add: DecodeRuneInString_def byte_at_Some first_4 [OF assms(1,2)])

lemma Decode_4:
  assumes "0xF0 \<le> byte c0" "byte c0 \<le> 0xF4"
  shows "DecodeRuneInString (c0 # c1 # c2 # c3 # cs) =
    Some (if second_ok (byte c0) (byte c1) \<and> cont (byte c2) \<and> cont (byte c3)
          then (of_nat (byte c0 mod 8 * 262144 + byte c1 mod 64 * 4096 + byte c2 mod 64 * 64
                        + byte c3 mod 64), 4)
          else (RuneError, 1))"
  using assms
  by (simp add: Decode_unfold byte_at_Some first_4 [OF assms] acceptRanges_def cont_def
      second_ok_def not_less del: of_nat_add of_nat_mult)

lemma mod_shift:
  fixes b :: nat
  assumes "m * q \<le> b" "b < m * q + m"
  shows "b mod m = b - m * q"
proof -
  have "b = (b - m * q) + m * q"
    using assms by simp
  then have "b mod m = ((b - m * q) + m * q) mod m"
    by simp
  also have "\<dots> = (b - m * q) mod m"
    by (simp only: mod_mult_self2)
  also have "\<dots> = b - m * q"
    using assms by (intro mod_less) linarith
  finally show ?thesis .
qed

lemma mod_ranges:
  fixes b :: nat
  shows "0xC2 \<le> b \<Longrightarrow> b \<le> 0xDF \<Longrightarrow> b mod 32 = b - 0xC0"
    and "0xE0 \<le> b \<Longrightarrow> b \<le> 0xEF \<Longrightarrow> b mod 16 = b - 0xE0"
    and "0xF0 \<le> b \<Longrightarrow> b \<le> 0xF4 \<Longrightarrow> b mod 8 = b - 0xF0"
    and "cont b \<Longrightarrow> b mod 64 = b - 0x80"
  using mod_shift [of 32 6 b] mod_shift [of 16 14 b] mod_shift [of 8 30 b] mod_shift [of 64 2 b]
  by (simp_all add: cont_def)

lemma second_ok_cont: "second_ok b0 b1 \<Longrightarrow> cont b1"
  by (auto simp: second_ok_def cont_def split: if_splits)


lemma second_ok_mod: "second_ok b0 b1 \<Longrightarrow> b1 mod 64 = b1 - 0x80"
  by (simp add: second_ok_cont mod_ranges)

lemma DecodeRuneInString_utf8_head:
  "DecodeRuneInString s =
     Some (case utf8_head (map byte s) of
             Some (c, n) \<Rightarrow> (of_nat c, n)
           | None \<Rightarrow> (RuneError, if s = [] then 0 else 1))"
proof (cases s)
  case Nil
  then show ?thesis by (simp add: DecodeRuneInString_def)
next
  case (Cons c0 cs)
  consider (ascii) "byte c0 \<le> 0x7F"
    | (bad) "0x80 \<le> byte c0" "byte c0 < 0xC2 \<or> 0xF4 < byte c0"
    | (two) "0xC2 \<le> byte c0" "byte c0 \<le> 0xDF"
    | (three) "0xE0 \<le> byte c0" "byte c0 \<le> 0xEF"
    | (four) "0xF0 \<le> byte c0" "byte c0 \<le> 0xF4"
    by linarith
  then show ?thesis
  proof cases
    case ascii
    then show ?thesis by (simp add: Cons Decode_ascii)
  next
    case bad
    have "utf8_head (byte c0 # map byte cs) = None"
      using bad by auto
    then show ?thesis using bad by (simp add: Cons Decode_bad_lead del: utf8_head.simps)
  next
    case two
    show ?thesis
    proof (cases cs)
      case Nil
      with two show ?thesis by (simp add: Cons Decode_2_short)
    next
      case (Cons c1 cs')
      with two show ?thesis
        by (simp add: \<open>s = c0 # cs\<close> Decode_2 mod_ranges)
    qed
  next
    case three
    show ?thesis
    proof (cases "length cs < 2")
      case True
      then have "utf8_head (byte c0 # map byte cs) = None"
        using three by (cases cs; cases "tl cs") simp_all
      with True three show ?thesis
        by (simp add: Cons Decode_3_short del: utf8_head.simps)
    next
      case False
      then obtain c1 c2 cs' where cs: "cs = c1 # c2 # cs'"
        by (cases cs; cases "tl cs") auto
      from three show ?thesis
        by (auto simp add: Cons cs Decode_3 mod_ranges simp del: of_nat_add of_nat_mult dest: second_ok_mod)
    qed
  next
    case four
    show ?thesis
    proof (cases "length cs < 3")
      case True
      then have "utf8_head (byte c0 # map byte cs) = None"
        using four by (cases cs; cases "tl cs"; cases "tl (tl cs)") simp_all
      with True four show ?thesis
        by (simp add: Cons Decode_4_short del: utf8_head.simps)
    next
      case False
      then obtain c1 c2 c3 cs' where cs: "cs = c1 # c2 # c3 # cs'"
        by (cases cs; cases "tl cs"; cases "tl (tl cs)") auto
      from four show ?thesis
        by (auto simp add: Cons cs Decode_4 mod_ranges simp del: of_nat_add of_nat_mult dest: second_ok_mod)
    qed
  qed
qed

section \<open>The integer parser against decimal numerals\<close>

lemma dec_from_Nil: "dec_from n [] = n"
  by (simp add: dec_from_def)

lemma dec_from_Cons: "dec_from n (c # cs) = dec_from (n * 10 + (byte c - 0x30)) cs"
  by (simp add: dec_from_def)

lemma dec_from_ge: "n \<le> dec_from n ds"
proof (induction ds arbitrary: n)
  case Nil
  show ?case by (simp add: dec_from_Nil)
next
  case (Cons c cs)
  have "n \<le> n * 10 + (byte c - 0x30)" by simp
  also have "\<dots> \<le> dec_from (n * 10 + (byte c - 0x30)) cs" by (rule Cons.IH)
  finally show ?case by (simp add: dec_from_Cons)
qed

text \<open>One step of the loop on a digit.\<close>

lemma ParseUint_loop_digit:
  assumes dig: "is_digit ch" and M: "M < 2 ^ 64" and n: "n \<le> M"
  shows "ParseUint_loop M n (ch # cs) =
    (if n * 10 + (byte ch - 0x30) \<le> M then ParseUint_loop M (n * 10 + (byte ch - 0x30)) cs
     else (M, Some ErrRange))"
proof -
  define d where "d = byte ch - 0x30"
  have d: "d < 10" and c: "0x30 \<le> byte ch" "byte ch \<le> 0x39"
    using dig by (auto simp: is_digit_def d_def)
  have cut: "maxUint64 div 10 = 1844674407370955161"
    by (simp add: maxUint64_def)
  have M': "M \<le> 18446744073709551615"
    using M by simp
  show ?thesis
  proof (cases "n \<ge> 1844674407370955162")
    case True
    then have "n * 10 + d > M"
      using M' by linarith
    with True show ?thesis
      using c d by (simp add: cut d_def Let_def)
  next
    case False
    then have m1: "(n * 10) mod 18446744073709551616 = n * 10"
      by simp
    show ?thesis
    proof (cases "n * 10 + d < 18446744073709551616")
      case True
      then have m2: "(n * 10 + d) mod 18446744073709551616 = n * 10 + d"
        by simp
      show ?thesis
        using False c d
        by (simp add: cut Let_def m1 d_def [symmetric] m2 not_le)
    next
      case wrap: False
      have "n * 10 + d < 2 * 18446744073709551616"
        using False d by simp
      then have m2: "(n * 10 + d) mod 18446744073709551616 = n * 10 + d - 18446744073709551616"
        using wrap by (simp add: mod_if)
      have lt: "n * 10 + d - 18446744073709551616 < n * 10"
        using d wrap by simp
      have "n * 10 + d > M"
        using wrap M' by simp
      then show ?thesis
        using False c d lt
        by (simp add: cut Let_def m1 d_def [symmetric] m2)
    qed
  qed
qed

text \<open>One step of the loop on a byte that is not a digit.\<close>

lemma ParseUint_loop_nondigit:
  assumes "\<not> is_digit ch"
  shows "ParseUint_loop M n (ch # cs) = (0, Some ErrSyntax)"
proof -
  have "\<not> (0x30 \<le> byte ch \<and> byte ch \<le> 0x39)"
    using assms by (simp add: is_digit_def)
  then show ?thesis
    by (auto simp: Let_def)
qed

lemma ParseUint_loop_digits:
  assumes "list_all is_digit ds" "M < 2 ^ 64" "n \<le> M"
  shows "ParseUint_loop M n ds =
    (if dec_from n ds \<le> M then (dec_from n ds, None) else (M, Some ErrRange))"
  using assms
proof (induction ds arbitrary: n)
  case Nil
  then show ?case by (simp add: dec_from_Nil)
next
  case (Cons ch cs)
  then have dig: "is_digit ch" and rest: "list_all is_digit cs"
    by simp_all
  let ?n1 = "n * 10 + (byte ch - 0x30)"
  show ?case
  proof (cases "?n1 \<le> M")
    case True
    then show ?thesis
      using Cons.IH [OF rest Cons.prems(2) True]
      by (simp only: ParseUint_loop_digit [OF dig Cons.prems(2,3)] dec_from_Cons if_True)
  next
    case False
    have "?n1 \<le> dec_from ?n1 cs"
      by (rule dec_from_ge)
    with False have "\<not> dec_from n (ch # cs) \<le> M"
      by (simp add: dec_from_Cons)
    with False show ?thesis
      by (simp only: ParseUint_loop_digit [OF dig Cons.prems(2,3)] if_False)
  qed
qed

lemma ParseUint_loop_stops:
  assumes "list_all is_digit ds" "\<not> is_digit ch" "M < 2 ^ 64" "n \<le> M"
  shows "ParseUint_loop M n (ds @ ch # cs) =
    (if dec_from n ds \<le> M then (0, Some ErrSyntax) else (M, Some ErrRange))"
  using assms
proof (induction ds arbitrary: n)
  case Nil
  then show ?case
    by (simp add: ParseUint_loop_nondigit dec_from_Nil del: ParseUint_loop.simps)
next
  case (Cons c ds)
  then have dig: "is_digit c" and rest: "list_all is_digit ds"
    by simp_all
  let ?n1 = "n * 10 + (byte c - 0x30)"
  show ?case
  proof (cases "?n1 \<le> M")
    case True
    then show ?thesis
      using Cons.IH [OF rest Cons.prems(2,3) True]
      by (simp only: append_Cons ParseUint_loop_digit [OF dig Cons.prems(3,4)] dec_from_Cons if_True)
  next
    case False
    have "?n1 \<le> dec_from ?n1 ds"
      by (rule dec_from_ge)
    with False have "\<not> dec_from n (c # ds) \<le> M"
      by (simp add: dec_from_Cons)
    with False show ?thesis
      by (simp only: append_Cons ParseUint_loop_digit [OF dig Cons.prems(3,4)] if_False)
  qed
qed


lemma le_pow2_minus1: "(x::nat) \<le> 2 ^ k - 1 \<longleftrightarrow> x < 2 ^ k"
proof -
  have "0 < (2::nat) ^ k" by simp
  then show ?thesis by arith
qed

lemma maxVal_eq:
  assumes "isz = 32 \<or> isz = 64"
  shows "(2 ^ isz mod 2 ^ 64 + 2 ^ 64 - 1) mod 2 ^ 64 = (2 ^ isz - 1 :: nat)"
  using assms by auto

lemma ParseUint_digits:
  assumes isz: "isz = 32 \<or> isz = 64" and ne: "ds \<noteq> []" and dig: "list_all is_digit ds"
  shows "ParseUint isz ds =
    (if dec_value ds < 2 ^ isz then (dec_value ds, None) else (2 ^ isz - 1, Some ErrRange))"
proof -
  have M: "(2 ^ isz - 1 :: nat) < 2 ^ 64"
    using isz by auto
  have "ParseUint isz ds = ParseUint_loop (2 ^ isz - 1) 0 ds"
    using ne by (simp only: ParseUint_def maxVal_eq [OF isz] if_False)
  also have "\<dots> = (if dec_from 0 ds \<le> 2 ^ isz - 1 then (dec_from 0 ds, None)
                    else (2 ^ isz - 1, Some ErrRange))"
    by (rule ParseUint_loop_digits [OF dig M]) simp
  also have "dec_from 0 ds \<le> 2 ^ isz - 1 \<longleftrightarrow> dec_value ds < 2 ^ isz"
    by (simp only: dec_value_def le_pow2_minus1)
  finally show ?thesis
    by (simp add: dec_value_def)
qed

lemma ParseUint_not_digits:
  assumes isz: "isz = 32 \<or> isz = 64" and nd: "ds = [] \<or> \<not> list_all is_digit ds"
  shows "ParseUint isz ds =
    (if dec_value (takeWhile is_digit ds) < 2 ^ isz then (0, Some ErrSyntax)
     else (2 ^ isz - 1, Some ErrRange))"
proof (cases "ds = []")
  case True
  then show ?thesis
    by (simp add: ParseUint_def dec_value_def dec_from_Nil)
next
  case False
  with nd have nall: "\<not> list_all is_digit ds"
    by simp
  define pre where "pre = takeWhile is_digit ds"
  define post where "post = dropWhile is_digit ds"
  have post: "post \<noteq> []"
    using nall by (auto simp: post_def list_all_iff)
  then obtain ch cs where pc: "post = ch # cs"
    by (cases post) auto
  have ch: "\<not> is_digit ch"
    using hd_dropWhile [of is_digit ds] post pc by (simp add: post_def)
  have pre: "list_all is_digit pre"
    by (auto simp: pre_def list_all_iff dest: set_takeWhileD)
  have ds: "ds = pre @ ch # cs"
    by (metis takeWhile_dropWhile_id pc pre_def post_def)
  have M: "(2 ^ isz - 1 :: nat) < 2 ^ 64"
    using isz by auto
  have "ParseUint isz ds = ParseUint_loop (2 ^ isz - 1) 0 (pre @ ch # cs)"
    using False by (simp only: ParseUint_def maxVal_eq [OF isz] if_False ds [symmetric])
  also have "\<dots> = (if dec_from 0 pre \<le> 2 ^ isz - 1 then (0, Some ErrSyntax)
                    else (2 ^ isz - 1, Some ErrRange))"
    by (rule ParseUint_loop_stops [OF pre ch M]) simp
  also have "dec_from 0 pre \<le> 2 ^ isz - 1 \<longleftrightarrow> dec_value pre < 2 ^ isz"
    by (simp only: dec_value_def le_pow2_minus1)
  finally show ?thesis
    by (simp add: pre_def)
qed

lemma int64_id: "- (2 ^ 63) \<le> v \<Longrightarrow> v < 2 ^ 63 \<Longrightarrow> int64 v = v"
  by (simp add: int64_def)

lemma to_int_id:
  assumes "isz = 32 \<or> isz = 64" "- (2 ^ (isz - 1)) \<le> v" "v < 2 ^ (isz - 1)"
  shows "to_int isz v = v"
  using assms by (auto simp: to_int_def)

lemma ParseInt_sign:
  assumes "s \<noteq> []"
  shows "ParseInt isz s =
    (let (un, err) = ParseUint isz (unsigned_part s) in
     if err = Some ErrSyntax then (0, err)
     else if \<not> negative s \<and> un \<ge> 2 ^ (isz - 1) then (int64 (int (2 ^ (isz - 1) - 1)), Some ErrRange)
     else if negative s \<and> un > 2 ^ (isz - 1) then (int64 (- int64 (int (2 ^ (isz - 1)))), Some ErrRange)
     else (if negative s then int64 (- int64 (int un)) else int64 (int un), None))"
  using assms
  by (cases s) (auto simp: ParseInt_def unsigned_part_def negative_def Let_def split: prod.splits)


lemma outcome_max:
  assumes "isz = 32 \<or> isz = 64"
  shows "int64 (int (2 ^ (isz - 1) - 1)) = 2 ^ (isz - 1) - 1"
  using assms by (auto simp: int64_def)

lemma outcome_min:
  assumes "isz = 32 \<or> isz = 64"
  shows "int64 (- int64 (int (2 ^ (isz - 1)))) = - (2 ^ (isz - 1))"
  using assms by (auto simp: int64_def)

lemma outcome_pos:
  assumes "isz = 32 \<or> isz = 64" "un < 2 ^ (isz - 1)"
  shows "int64 (int un) = int un"
  using assms by (auto simp: int64_def)

lemma outcome_neg:
  assumes "isz = 32 \<or> isz = 64" "un \<le> 2 ^ (isz - 1)"
  shows "int64 (- int64 (int un)) = - int un"
proof (cases "un = 2 ^ (isz - 1)")
  case True
  then show ?thesis
    using outcome_min [OF assms(1)] by simp
next
  case False
  with assms(2) have lt: "un < 2 ^ (isz - 1)"
    by simp
  then have u: "un < 9223372036854775808"
    using assms(1) by auto
  then have 1: "int64 (int un) = int un"
    by (simp add: int64_def)
  have 2: "int64 (- int un) = - int un"
    using u by (intro int64_id) simp_all
  show ?thesis
    by (simp add: 1 2)
qed

text \<open>
  What \<open>ParseInt\<close> returns, from what \<open>ParseUint\<close> returns on the part after the sign.
\<close>

lemma ParseInt_value:
  assumes isz: "isz = 32 \<or> isz = 64" and s: "s \<noteq> []"
    and pu: "ParseUint isz (unsigned_part s) = (un, err)" and err: "err \<noteq> Some ErrSyntax"
  shows "fst (ParseInt isz s) =
    (if negative s then (if un > 2 ^ (isz - 1) then - (2 ^ (isz - 1)) else - int un)
     else (if un \<ge> 2 ^ (isz - 1) then 2 ^ (isz - 1) - 1 else int un))"
proof -
  have "fst (ParseInt isz s) =
    (if \<not> negative s \<and> un \<ge> 2 ^ (isz - 1) then int64 (int (2 ^ (isz - 1) - 1))
     else if negative s \<and> un > 2 ^ (isz - 1) then int64 (- int64 (int (2 ^ (isz - 1))))
     else if negative s then int64 (- int64 (int un)) else int64 (int un))"
    using err by (simp add: ParseInt_sign [OF s] pu)
  then show ?thesis
    using outcome_max [OF isz] outcome_min [OF isz] outcome_pos [OF isz, of un]
      outcome_neg [OF isz, of un]
    by (auto simp: not_le not_less)
qed

lemma ParseInt_syntax:
  assumes "ParseUint isz (unsigned_part s) = (un, Some ErrSyntax)"
  shows "fst (ParseInt isz s) = 0"
proof (cases "s = []")
  case True
  then show ?thesis by (simp add: ParseInt_def)
next
  case False
  then show ?thesis
    by (simp add: ParseInt_sign assms)
qed

lemma ParseInt_in_range:
  assumes isz: "isz = 32 \<or> isz = 64"
  shows "- (2 ^ (isz - 1)) \<le> fst (ParseInt isz s) \<and> fst (ParseInt isz s) < 2 ^ (isz - 1)"
proof (cases "s = []")
  case True
  then show ?thesis by (simp add: ParseInt_def)
next
  case False
  obtain un err where pu: "ParseUint isz (unsigned_part s) = (un, err)"
    by (cases "ParseUint isz (unsigned_part s)")
  show ?thesis
  proof (cases "err = Some ErrSyntax")
    case True
    with pu have "fst (ParseInt isz s) = 0"
      by (simp add: ParseInt_syntax)
    then show ?thesis by simp
  next
    case ne: False
    define c :: int where "c = 2 ^ (isz - 1)"
    have cpos: "0 < c"
      by (simp add: c_def)
    have "fst (ParseInt isz s) =
      (if negative s then (if int un > c then - c else - int un)
       else (if int un \<ge> c then c - 1 else int un))"
      unfolding ParseInt_value [OF isz False pu ne] c_def by simp
    then have "- c \<le> fst (ParseInt isz s) \<and> fst (ParseInt isz s) < c"
      using cpos by (auto simp: not_le not_less)
    then show ?thesis
      by (simp add: c_def)
  qed
qed

lemma toInt_eq_ParseInt:
  assumes "isz = 32 \<or> isz = 64"
  shows "toInt isz s = fst (ParseInt isz s)"
  using ParseInt_in_range [OF assms, of s]
  by (simp add: toInt_def to_int_id [OF assms])


lemma pow_isz_gt:
  assumes "isz = 32 \<or> isz = 64"
  shows "(2::nat) ^ (isz - 1) < 2 ^ isz - 1"
  using assms by auto

lemma toInt_decimal:
  assumes isz: "isz = 32 \<or> isz = 64" and dec: "is_decimal s"
  shows "toInt isz s =
    (if signed_value s < - (2 ^ (isz - 1)) then - (2 ^ (isz - 1))
     else if signed_value s \<ge> 2 ^ (isz - 1) then 2 ^ (isz - 1) - 1
     else signed_value s)"
proof -
  define body where "body = unsigned_part s"
  define dv where "dv = dec_value body"
  define c :: nat where "c = 2 ^ (isz - 1)"
  from dec have ne: "body \<noteq> []" and dig: "list_all is_digit body"
    by (simp_all add: is_decimal_def body_def)
  from ne have s: "s \<noteq> []"
    by (auto simp: body_def unsigned_part_def)
  have sv: "signed_value s = (if negative s then - int dv else int dv)"
    by (simp add: signed_value_def dv_def body_def)
  have cpos: "0 < c"
    by (simp add: c_def)
  have ci: "(2::int) ^ (isz - 1) = int c"
    by (simp add: c_def)
  show ?thesis
  proof (cases "dv < 2 ^ isz")
    case True
    then have pu: "ParseUint isz (unsigned_part s) = (dv, None)"
      using ParseUint_digits [OF isz ne dig] by (simp add: dv_def body_def)
    have "fst (ParseInt isz s) =
      (if negative s then (if dv > c then - int c else - int dv)
       else (if dv \<ge> c then int c - 1 else int dv))"
      using ParseInt_value [OF isz s pu] by (simp add: c_def)
    then show ?thesis
      using cpos unfolding toInt_eq_ParseInt [OF isz] sv ci by auto
  next
    case False
    then have pu: "ParseUint isz (unsigned_part s) = (2 ^ isz - 1, Some ErrRange)"
      using ParseUint_digits [OF isz ne dig] by (simp add: dv_def body_def)
    have big: "c < 2 ^ isz - 1"
      using pow_isz_gt [OF isz] by (simp add: c_def)
    with False have dvc: "c < dv"
      by simp
    have "fst (ParseInt isz s) = (if negative s then - int c else int c - 1)"
      using ParseInt_value [OF isz s pu] big by (simp add: c_def)
    then show ?thesis
      using cpos dvc unfolding toInt_eq_ParseInt [OF isz] sv ci by auto
  qed
qed

lemma toInt_not_decimal:
  assumes isz: "isz = 32 \<or> isz = 64" and nd: "\<not> is_decimal s"
  shows "toInt isz s =
    (if dec_value (leading_digits s) < 2 ^ isz then 0
     else if negative s then - (2 ^ (isz - 1)) else 2 ^ (isz - 1) - 1)"
proof -
  define body where "body = unsigned_part s"
  from nd have b: "body = [] \<or> \<not> list_all is_digit body"
    by (auto simp: is_decimal_def body_def)
  note pu = ParseUint_not_digits [OF isz b]
  show ?thesis
  proof (cases "dec_value (leading_digits s) < 2 ^ isz")
    case True
    then have "ParseUint isz (unsigned_part s) = (0, Some ErrSyntax)"
      using pu by (simp add: leading_digits_def body_def)
    then have "fst (ParseInt isz s) = 0"
      by (rule ParseInt_syntax)
    with True show ?thesis
      by (simp add: toInt_eq_ParseInt [OF isz])
  next
    case False
    then have r: "ParseUint isz (unsigned_part s) = (2 ^ isz - 1, Some ErrRange)"
      using pu by (simp add: leading_digits_def body_def)
    have s: "s \<noteq> []"
      using False by (auto simp: leading_digits_def unsigned_part_def dec_value_def dec_from_Nil)
    have big: "(2::nat) ^ (isz - 1) < 2 ^ isz - 1"
      by (rule pow_isz_gt [OF isz])
    have "fst (ParseInt isz s) = (if negative s then - (2 ^ (isz - 1)) else 2 ^ (isz - 1) - 1)"
      using ParseInt_value [OF isz s r] big by simp
    with False show ?thesis
      by (simp add: toInt_eq_ParseInt [OF isz])
  qed
qed

section \<open>The event parser\<close>

lemma index_Some: "i < length xs \<Longrightarrow> index xs i = Some (xs ! i)"
  by (simp add: index_def)

lemma parser_eq:
  assumes len: "length args = 21"
    and dec: "DecodeRuneInString (toString (args ! 10)) = Some r"
  shows "parser fw isz e args = Some (e\<lparr>
      Type := toInt isz (args ! 0),
      Synthetic := toBool (args ! 1),
      Widget := fw (args ! 2),
      Timestamp := (if toInt64 isz (args ! 3) < 0 then 0 else toInt64 isz (args ! 3)),
      MouseButton := toInt isz (args ! 4),
      PosX := toInt isz (args ! 5),
      PosY := toInt isz (args ! 6),
      WheelDelta := toInt isz (args ! 7),
      KeyCode := toInt isz (args ! 8),
      KeySym := toString (args ! 9),
      KeyText := toString (args ! 10),
      KeyRune := (if toString (args ! 10) \<noteq> [] then fst r else KeyRune e),
      UserData := toString (args ! 11),
      Focus := toBool (args ! 12),
      Width := toInt isz (args ! 13),
      Height := toInt isz (args ! 14),
      Mode := toString (args ! 15),
      OverrideRedirect := toString (args ! 16),
      Place := toString (args ! 17),
      State := toString (args ! 18),
      GlobalPosX := toInt isz (args ! 19),
      GlobalPosY := toInt isz (args ! 20)\<rparr>)"
  using len dec by (simp add: parser_def index_Some Let_def)

lemma DecodeRuneInString_total: "\<exists>r. DecodeRuneInString s = Some r"
  by (simp add: DecodeRuneInString_utf8_head)

text \<open>An array with fewer than 21 fields makes the parser panic at the first missing one.\<close>

lemma parser_short:
  assumes "length args < 21"
  shows "parser fw isz e args = None"
  using assms by (auto simp: parser_def index_def Let_def split: Option.bind_splits)

text \<open>
  C5: on an array of exactly 21 strings the parser returns; no index of the array or of
  a string is out of range, whatever the strings hold.
\<close>

theorem parser_total:
  "length args = 21 \<Longrightarrow> \<exists>e'. parser fw isz e args = Some e'"
proof -
  assume len: "length args = 21"
  obtain r where "DecodeRuneInString (toString (args ! 10)) = Some r"
    using DecodeRuneInString_total by blast
  from parser_eq [OF len this] show ?thesis
    by blast
qed

theorem parser_total_witness:
  "length key_invalid = 21 \<and> (\<exists>e'. parser (\<lambda>p. None) 64 (zeroEvent (None :: unit option)) key_invalid = Some e')"
proof -
  have len: "length key_invalid = 21"
    by (simp add: key_invalid_def)
  from parser_total [OF len] len show ?thesis
    by blast
qed


lemmas run_parser = parser_def index_def toString_def toBool_def toInt_def toInt64_def to_int_def
  ParseInt_def ParseUint_def int64_def byte_def lower_def maxUint64_def Let_def
  DecodeRuneInString_def byte_at_def first_def acceptRanges_def RuneError_def zeroEvent_def

text \<open>
  C6: \<open>toString\<close> maps \<open>??\<close> to the empty string and every other string to itself, and
  the parser stores its result in each of the seven string fields (keysym, keytext,
  userdata, mode, override-redirect, place, state).
\<close>

theorem toString_sentinel:
  "toString ''??'' = '''' \<and> (s \<noteq> ''??'' \<longrightarrow> toString s = s)
   \<and> (length args = 21 \<longrightarrow>
        (\<exists>e'. parser fw isz e args = Some e'
           \<and> KeySym e' = toString (args ! 9) \<and> KeyText e' = toString (args ! 10)
           \<and> UserData e' = toString (args ! 11) \<and> Mode e' = toString (args ! 15)
           \<and> OverrideRedirect e' = toString (args ! 16) \<and> Place e' = toString (args ! 17)
           \<and> State e' = toString (args ! 18)))"
proof -
  have "toString ''??'' = ''''" "s \<noteq> ''??'' \<longrightarrow> toString s = s"
    by (simp_all add: toString_def)
  moreover have "\<exists>e'. parser fw isz e args = Some e'
           \<and> KeySym e' = toString (args ! 9) \<and> KeyText e' = toString (args ! 10)
           \<and> UserData e' = toString (args ! 11) \<and> Mode e' = toString (args ! 15)
           \<and> OverrideRedirect e' = toString (args ! 16) \<and> Place e' = toString (args ! 17)
           \<and> State e' = toString (args ! 18)" if len: "length args = 21"
  proof -
    obtain r where "DecodeRuneInString (toString (args ! 10)) = Some r"
      using DecodeRuneInString_total by blast
    from parser_eq [OF len this, of fw isz e] show ?thesis
      by simp
  qed
  ultimately show ?thesis
    by blast
qed

theorem toString_sentinel_witness:
  "''a'' \<noteq> ''??'' \<and> toString ''a'' = ''a'' \<and> length key_a = 21
   \<and> (\<exists>e'. parser (\<lambda>p. None) 64 (zeroEvent (None :: unit option)) key_a = Some e'
        \<and> KeySym e' = ''a'' \<and> KeyText e' = ''a'' \<and> UserData e' = '''' \<and> Mode e' = ''''
        \<and> OverrideRedirect e' = '''' \<and> Place e' = '''' \<and> State e' = ''16'')"
proof -
  have len: "length key_a = 21"
    by (simp add: key_a_def)
  have f: "toString (key_a ! 9) = ''a''" "toString (key_a ! 10) = ''a''"
    "toString (key_a ! 11) = ''''" "toString (key_a ! 15) = ''''" "toString (key_a ! 16) = ''''"
    "toString (key_a ! 17) = ''''" "toString (key_a ! 18) = ''16''"
    by (simp_all add: key_a_def toString_def)
  from toString_sentinel [of "''a''" key_a "\<lambda>p. None" 64 "zeroEvent (None :: unit option)"] len
  show ?thesis
    by (simp add: f)
qed


text \<open>
  C3, as stated, fails: a key text that is the single byte \<open>0xFF\<close> is not empty and not
  well-formed UTF-8, and the parser sets \<open>KeyRune\<close> to \<open>U+FFFD\<close>, not to the zero rune.
\<close>

theorem KeyRune_zero_counterexample:
  "length key_invalid = 21 \<and> toString (key_invalid ! 10) \<noteq> ''''
   \<and> utf8_head (map byte (toString (key_invalid ! 10))) = None
   \<and> map_option KeyRune (parser (\<lambda>p. None) 64 (zeroEvent (None :: unit option)) key_invalid)
       = Some 0xFFFD
   \<and> (0xFFFD :: rune) \<noteq> 0"
  by (simp add: run_parser key_invalid_def)

text \<open>
  C3, amended: when the key text (position 10) is not empty after the normalisation of
  \<open>??\<close>, the parser sets \<open>KeyRune\<close> to the code point of the well-formed UTF-8 sequence
  the text begins with, and to \<open>U+FFFD\<close> (\<open>RuneError\<close>) when it begins with none.
\<close>

theorem KeyRune_decoded:
  assumes "length args = 21" and "toString (args ! 10) \<noteq> ''''"
  shows "\<exists>e'. parser fw isz e args = Some e'
    \<and> KeyRune e' = (case utf8_head (map byte (toString (args ! 10))) of
                      Some (c, n) \<Rightarrow> of_nat c
                    | None \<Rightarrow> 0xFFFD)"
proof -
  let ?t = "toString (args ! 10)"
  let ?r = "case utf8_head (map byte ?t) of
              Some (c, n) \<Rightarrow> (of_nat c :: rune, n)
            | None \<Rightarrow> (RuneError, if ?t = [] then 0 else 1)"
  have dec: "DecodeRuneInString ?t = Some ?r"
    by (rule DecodeRuneInString_utf8_head)
  have "fst ?r = (case utf8_head (map byte ?t) of Some (c, n) \<Rightarrow> of_nat c | None \<Rightarrow> 0xFFFD)"
    by (simp add: RuneError_def split: option.split)
  with parser_eq [OF assms(1) dec, of fw isz e] assms(2) show ?thesis
    by simp
qed

theorem KeyRune_decoded_witness:
  "length key_a = 21 \<and> toString (key_a ! 10) \<noteq> ''''
   \<and> (\<exists>e'. parser (\<lambda>p. None) 64 (zeroEvent (None :: unit option)) key_a = Some e'
        \<and> KeyRune e' = 97)"
proof -
  have len: "length key_a = 21" and t: "toString (key_a ! 10) \<noteq> ''''"
    by (simp_all add: key_a_def toString_def)
  have "(case utf8_head (map byte (toString (key_a ! 10))) of
           Some (c, n) \<Rightarrow> of_nat c | None \<Rightarrow> 0xFFFD) = (97 :: rune)"
    by (simp add: key_a_def toString_def byte_def)
  with KeyRune_decoded [OF len t, of "\<lambda>p. None" 64 "zeroEvent (None :: unit option)"] len t
  show ?thesis
    by simp
qed

text \<open>
  C4, as stated, fails: a numeral out of range does not parse (\<open>ParseInt\<close> reports a
  range error), and \<open>toInt\<close> yields the bound of the integer type, not zero.
\<close>

theorem toInt_out_of_range_counterexample:
  "snd (ParseInt 64 ''9223372036854775808'') = Some ErrRange
   \<and> toInt 64 ''9223372036854775808'' = 9223372036854775807
   \<and> snd (ParseInt 32 ''-2147483649'') = Some ErrRange
   \<and> toInt 32 ''-2147483649'' = - 2147483648"
  by (simp add: toInt_def to_int_def ParseInt_def ParseUint_def int64_def byte_def lower_def
      maxUint64_def)


text \<open>
  C4, amended: with \<open>int\<close> of 32 or 64 bits, \<open>toInt\<close> of a decimal numeral (optional
  sign, at least one digit) is its value when that fits and the nearest bound of the
  integer type when it does not; \<open>toInt\<close> of any other string is zero, unless its
  leading digits already exceed the unsigned range, and then it is the bound of its
  sign. \<open>toInt64\<close> gives the same number. The parser stores these numbers in the numeric
  fields, the timestamp raised to 0 when negative; it returns no error.
\<close>

theorem toInt_numeric_fields:
  assumes isz: "isz = 32 \<or> isz = 64"
  shows "(is_decimal s \<longrightarrow>
            toInt isz s =
              (if signed_value s < - (2 ^ (isz - 1)) then - (2 ^ (isz - 1))
               else if signed_value s \<ge> 2 ^ (isz - 1) then 2 ^ (isz - 1) - 1
               else signed_value s))
    \<and> (\<not> is_decimal s \<longrightarrow>
            toInt isz s =
              (if dec_value (leading_digits s) < 2 ^ isz then 0
               else if negative s then - (2 ^ (isz - 1)) else 2 ^ (isz - 1) - 1))
    \<and> toInt64 isz s = toInt isz s
    \<and> (length args = 21 \<longrightarrow>
          (\<exists>e'. parser fw isz e args = Some e'
             \<and> Type e' = toInt isz (args ! 0)
             \<and> Timestamp e' = max 0 (toInt64 isz (args ! 3))
             \<and> MouseButton e' = toInt isz (args ! 4)
             \<and> PosX e' = toInt isz (args ! 5) \<and> PosY e' = toInt isz (args ! 6)
             \<and> WheelDelta e' = toInt isz (args ! 7) \<and> KeyCode e' = toInt isz (args ! 8)
             \<and> Width e' = toInt isz (args ! 13) \<and> Height e' = toInt isz (args ! 14)
             \<and> GlobalPosX e' = toInt isz (args ! 19)
             \<and> GlobalPosY e' = toInt isz (args ! 20)))"
proof -
  have 1: "is_decimal s \<longrightarrow>
            toInt isz s =
              (if signed_value s < - (2 ^ (isz - 1)) then - (2 ^ (isz - 1))
               else if signed_value s \<ge> 2 ^ (isz - 1) then 2 ^ (isz - 1) - 1
               else signed_value s)"
    using toInt_decimal [OF isz] by blast
  have 2: "\<not> is_decimal s \<longrightarrow>
            toInt isz s =
              (if dec_value (leading_digits s) < 2 ^ isz then 0
               else if negative s then - (2 ^ (isz - 1)) else 2 ^ (isz - 1) - 1)"
    using toInt_not_decimal [OF isz] by blast
  have 3: "toInt64 isz s = toInt isz s"
    by (simp add: toInt64_def toInt_eq_ParseInt [OF isz])
  have 4: "\<exists>e'. parser fw isz e args = Some e'
             \<and> Type e' = toInt isz (args ! 0)
             \<and> Timestamp e' = max 0 (toInt64 isz (args ! 3))
             \<and> MouseButton e' = toInt isz (args ! 4)
             \<and> PosX e' = toInt isz (args ! 5) \<and> PosY e' = toInt isz (args ! 6)
             \<and> WheelDelta e' = toInt isz (args ! 7) \<and> KeyCode e' = toInt isz (args ! 8)
             \<and> Width e' = toInt isz (args ! 13) \<and> Height e' = toInt isz (args ! 14)
             \<and> GlobalPosX e' = toInt isz (args ! 19)
             \<and> GlobalPosY e' = toInt isz (args ! 20)" if len: "length args = 21"
  proof -
    obtain r where "DecodeRuneInString (toString (args ! 10)) = Some r"
      using DecodeRuneInString_total by blast
    from parser_eq [OF len this, of fw isz e] show ?thesis
      by (simp add: max_def)
  qed
  from 1 2 3 4 show ?thesis
    by blast
qed

theorem toInt_numeric_fields_witness:
  "(64 = (32::nat) \<or> 64 = (64::nat))
   \<and> is_decimal ''-123'' \<and> toInt 64 ''-123'' = - 123
   \<and> is_decimal ''99999999999999999999'' \<and> toInt 64 ''99999999999999999999'' = 9223372036854775807
   \<and> \<not> is_decimal ''12a'' \<and> toInt 64 ''12a'' = 0 \<and> toInt64 64 ''12a'' = 0
   \<and> length button_1 = 21
   \<and> (\<exists>e'. parser (\<lambda>p. None) 64 (zeroEvent (None :: unit option)) button_1 = Some e'
         \<and> Type e' = 4 \<and> Timestamp e' = 1300 \<and> MouseButton e' = 1 \<and> PosX e' = 10
         \<and> PosY e' = 20 \<and> WheelDelta e' = 0 \<and> KeyCode e' = 0 \<and> Width e' = 0
         \<and> Height e' = 0 \<and> GlobalPosX e' = 100 \<and> GlobalPosY e' = 200)"
proof -
  have isz: "(64::nat) = 32 \<or> (64::nat) = 64"
    by simp
  have len: "length button_1 = 21"
    by (simp add: button_1_def)
  have d1: "is_decimal ''-123''" "signed_value ''-123'' = - 123"
    and d2: "is_decimal ''99999999999999999999''"
      "signed_value ''99999999999999999999'' = 99999999999999999999"
    and d3: "\<not> is_decimal ''12a''" "dec_value (leading_digits ''12a'') = 12"
    by (simp_all add: is_decimal_def signed_value_def negative_def unsigned_part_def
        leading_digits_def dec_value_def dec_from_def is_digit_def byte_def)
  have q: "button_1 ! 0 = ''4''" "button_1 ! 3 = ''1300''" "button_1 ! 4 = ''1''"
    "button_1 ! 5 = ''10''" "button_1 ! 6 = ''20''" "button_1 ! 7 = ''??''"
    "button_1 ! 8 = ''??''" "button_1 ! 13 = ''??''" "button_1 ! 14 = ''??''"
    "button_1 ! 19 = ''100''" "button_1 ! 20 = ''200''"
    by (simp_all add: button_1_def)
  have v: "toInt 64 ''4'' = 4" "toInt64 64 ''1300'' = 1300" "toInt 64 ''1'' = 1"
    "toInt 64 ''10'' = 10" "toInt 64 ''20'' = 20" "toInt 64 ''??'' = 0"
    "toInt 64 ''100'' = 100" "toInt 64 ''200'' = 200"
    by (simp_all add: toInt_def toInt64_def to_int_def ParseInt_def ParseUint_def int64_def
        byte_def lower_def maxUint64_def)
  note a = toInt_numeric_fields [OF isz, of "''-123''" button_1 "\<lambda>p. None"
      "zeroEvent (None :: unit option)"]
  note b = toInt_numeric_fields [OF isz, of "''99999999999999999999''" "[]" "\<lambda>p. None"
      "zeroEvent (None :: unit option)"]
  note c = toInt_numeric_fields [OF isz, of "''12a''" "[]" "\<lambda>p. None"
      "zeroEvent (None :: unit option)"]
  have "toInt 64 ''-123'' = - 123"
    using a d1 by simp
  moreover have "toInt 64 ''99999999999999999999'' = 9223372036854775807"
    using b d2 by simp
  moreover have "toInt 64 ''12a'' = 0" "toInt64 64 ''12a'' = 0"
    using c d3 by simp_all
  moreover have "\<exists>e'. parser (\<lambda>p. None) 64 (zeroEvent (None :: unit option)) button_1 = Some e'
         \<and> Type e' = 4 \<and> Timestamp e' = 1300 \<and> MouseButton e' = 1 \<and> PosX e' = 10
         \<and> PosY e' = 20 \<and> WheelDelta e' = 0 \<and> KeyCode e' = 0 \<and> Width e' = 0
         \<and> Height e' = 0 \<and> GlobalPosX e' = 100 \<and> GlobalPosY e' = 200"
    using a len by (simp add: q v)
  ultimately show ?thesis
    using d1 d2 d3 len by simp
qed

section \<open>Binding and dispatch\<close>

lemma BindEvent_valid:
  assumes "tag \<noteq> ''''" "IsEvent event"
  shows "BindEvent E tag event fn w =
    (let fnid = bind_id E (bind_seq w);
         script = ''bind '' @ tag @ '' '' @ event @ '' {+'' @ fnid @ '' '' @ params @ ''}'';
         j = journal w @ [CreateAction fnid];
         r = eval_result E j script;
         w1 = w\<lparr>bind_seq := Suc (bind_seq w),
                journal := j @ [Eval script],
                actions := (actions w)(fnid \<mapsto> \<lparr>cell = zeroEvent None, callback = fn\<rparr>)\<rparr>
     in (r, if r = None
            then w1\<lparr>bindtab := (bindtab w)((tag, event) := bindtab w (tag, event) @ [fnid @ '' '' @ params])\<rparr>
            else w1))"
  using assms
  by (simp add: BindEvent_def makeBindEventId_def addEventHelper_def eval_bind_def eval_def
      interp_CreateAction_def tk_bind_def Let_def)

text \<open>
  C1, amended: a successful \<open>BindEvent\<close> on a non-empty tag and a bracket-wrapped event
  registers one action, holding a zero \<open>Event\<close> and the callback, and evaluates
  \<^verbatim>\<open>bind tag event {+fnid params}\<close>: the leading \<open>+\<close> makes the interpreter add the
  handler to the scripts already bound to that tag and event, which are kept.
\<close>

theorem BindEvent_appends:
  assumes "tag \<noteq> ''''" and "IsEvent event" and "BindEvent E tag event fn w = (None, w')"
  shows "journal w' = journal w @
           [CreateAction (bind_id E (bind_seq w)),
            Eval (''bind '' @ tag @ '' '' @ event @ '' {+'' @ bind_id E (bind_seq w) @ '' ''
                  @ params @ ''}'')]
    \<and> actions w' = (actions w)(bind_id E (bind_seq w) \<mapsto> \<lparr>cell = zeroEvent None, callback = fn\<rparr>)
    \<and> bindtab w' (tag, event) = bindtab w (tag, event) @ [bind_id E (bind_seq w) @ '' '' @ params]"
  using assms(3) unfolding BindEvent_valid [OF assms(1,2)]
  by (auto simp: Let_def split: if_splits)


lemma IsEvent_Key: "IsEvent ''<Key>''"
  by (simp add: IsEvent_def HasPrefix_def HasSuffix_def)

lemma BindEvent_world0:
  "BindEvent env0 ''.b'' ''<Key>'' f world0 =
     (None,
      \<lparr>journal = [CreateAction ''bind'', Eval (''bind .b <Key> {+bind '' @ params @ ''}'')],
       actions = [''bind'' \<mapsto> \<lparr>cell = zeroEvent None, callback = f\<rparr>],
       bindtab = (\<lambda>k. [])((''.b'', ''<Key>'') := [''bind '' @ params]),
       bind_seq = 1, image_seq = 0\<rparr>)"
  by (simp add: BindEvent_valid IsEvent_Key env0_def world0_def Let_def)

text \<open>
  C1, as stated, fails: after two successful calls on the same tag and event, both
  handlers are bound; the second did not replace the first.
\<close>

theorem BindEvent_replaces_counterexample:
  "''.b'' \<noteq> '''' \<and> IsEvent ''<Key>''
   \<and> fst (BindEvent env0 ''.b'' ''<Key>'' 1 world0) = None
   \<and> fst (BindEvent env0 ''.b'' ''<Key>'' 2 (snd (BindEvent env0 ''.b'' ''<Key>'' 1 world0))) = None
   \<and> bindtab (snd (BindEvent env0 ''.b'' ''<Key>'' 2 (snd (BindEvent env0 ''.b'' ''<Key>'' 1 world0))))
        (''.b'', ''<Key>'')
      = [''bind '' @ params, ''bindx '' @ params]"
  by (simp add: BindEvent_world0 IsEvent_Key) (simp add: BindEvent_valid IsEvent_Key env0_def Let_def)

theorem BindEvent_appends_witness:
  "''.b'' \<noteq> '''' \<and> IsEvent ''<Key>''
   \<and> BindEvent env0 ''.b'' ''<Key>'' 1 world0 = (None, snd (BindEvent env0 ''.b'' ''<Key>'' 1 world0))
   \<and> journal (snd (BindEvent env0 ''.b'' ''<Key>'' 1 world0))
      = [CreateAction ''bind'', Eval (''bind .b <Key> {+bind '' @ params @ ''}'')]
   \<and> bindtab (snd (BindEvent env0 ''.b'' ''<Key>'' 1 world0)) (''.b'', ''<Key>'')
      = [''bind '' @ params]"
proof -
  have t: "''.b'' \<noteq> ''''"
    by simp
  have b: "BindEvent env0 ''.b'' ''<Key>'' 1 world0
           = (None, snd (BindEvent env0 ''.b'' ''<Key>'' 1 world0))"
    by (simp add: BindEvent_world0)
  have "bind_id env0 (bind_seq world0) = ''bind''" "journal world0 = []"
    "bindtab world0 (''.b'', ''<Key>'') = []"
    by (simp_all add: env0_def world0_def)
  with BindEvent_appends [OF t IsEvent_Key b] t IsEvent_Key b show ?thesis
    by simp
qed

text \<open>
  C8: with an empty tag, or an event that is not wrapped in angle brackets, \<open>BindEvent\<close>
  returns \<open>ErrInvalid\<close> and leaves the world as it was: no action is registered, no
  script is evaluated, no identifier is drawn, whatever the callback.
\<close>

theorem BindEvent_invalid:
  "tag = '''' \<or> \<not> IsEvent event \<Longrightarrow> BindEvent E tag event fn w = (Some ErrInvalid, w)"
proof -
  assume "tag = '''' \<or> \<not> IsEvent event"
  then show ?thesis
  proof
    assume "tag = ''''"
    then show ?thesis
      by (simp add: BindEvent_def)
  next
    assume "\<not> IsEvent event"
    then show ?thesis
      by (simp add: BindEvent_def)
  qed
qed

theorem BindEvent_invalid_witness:
  "BindEvent env0 '''' ''<Key>'' 1 world0 = (Some ErrInvalid, world0)
   \<and> \<not> IsEvent ''Key''
   \<and> BindEvent env0 ''tag'' ''Key'' 1 world0 = (Some ErrInvalid, world0)"
proof -
  have n: "\<not> IsEvent ''Key''"
    by (simp add: IsEvent_def HasPrefix_def)
  have "BindEvent env0 '''' ''<Key>'' 1 world0 = (Some ErrInvalid, world0)"
    by (rule BindEvent_invalid) simp
  moreover have "BindEvent env0 ''tag'' ''Key'' 1 world0 = (Some ErrInvalid, world0)"
    by (rule BindEvent_invalid) (simp add: n)
  ultimately show ?thesis
    using n by simp
qed


text \<open>
  What a dispatch does to the variable of the binding: the record handed to the callback
  is the parse of the fields into the record the action held, it is left in the action,
  and when the key text of the dispatch is empty its \<open>KeyRune\<close> is the one the action
  held before.
\<close>

lemma dispatch_into_cell:
  assumes "actions w fnid = Some a" and "length args = 21"
  shows "\<exists>ev. parser (FindWidget E) (IntSize E) (cell a) args = Some ev
    \<and> dispatch E fnid args w
        = Some ((callback a, ev), w\<lparr>actions := (actions w)(fnid \<mapsto> a\<lparr>cell := ev\<rparr>)\<rparr>)
    \<and> KeyText ev = toString (args ! 10)
    \<and> (toString (args ! 10) = '''' \<longrightarrow> KeyRune ev = KeyRune (cell a))"
proof -
  obtain r where r: "DecodeRuneInString (toString (args ! 10)) = Some r"
    using DecodeRuneInString_total by blast
  note p = parser_eq [OF assms(2) r, of "FindWidget E" "IntSize E" "cell a"]
  have "dispatch E fnid args w
        = Some ((callback a, the (parser (FindWidget E) (IntSize E) (cell a) args)),
                w\<lparr>actions := (actions w)(fnid \<mapsto>
                     a\<lparr>cell := the (parser (FindWidget E) (IntSize E) (cell a) args)\<rparr>)\<rparr>)"
    by (simp add: dispatch_def assms(1) p)
  then show ?thesis
    unfolding p by simp
qed

lemma parse_key_a:
  "parser (FindWidget env0) (IntSize env0) (zeroEvent None) key_a
   = Some ((zeroEvent None)\<lparr>Type := 2, Timestamp := 1234, PosX := 10, PosY := 20, KeyCode := 38,
        KeySym := ''a'', KeyText := ''a'', KeyRune := 97, State := ''16'', GlobalPosX := 100,
        GlobalPosY := 200\<rparr>)"
  by (simp add: run_parser key_a_def env0_def)

lemma parse_button_1:
  "parser (FindWidget env0) (IntSize env0) e button_1
   = Some (e\<lparr>Type := 4, Synthetic := False, Widget := None, Timestamp := 1300, MouseButton := 1,
        PosX := 10, PosY := 20, WheelDelta := 0, KeyCode := 0, KeySym := '''', KeyText := '''',
        UserData := '''', Focus := False, Width := 0, Height := 0, Mode := '''',
        OverrideRedirect := '''', Place := '''', State := ''256'', GlobalPosX := 100,
        GlobalPosY := 200\<rparr>)"
  by (simp add: run_parser button_1_def env0_def)

text \<open>
  C2: the \<open>Event\<close> handed to the callback is to be a snapshot of the one occurrence, with
  no field left over from an earlier dispatch of the binding, in particular \<open>KeyRune\<close>
  when the key text is empty. The code breaks this. After \<open>BindEvent\<close> on \<open>.b\<close> and
  \<open><Key>\<close>, the action is dispatched with the fields of a press of the key \<open>a\<close> and then
  with the fields of a mouse button, whose key text is \<open>??\<close>. The callback sees the key
  texts \<open>a\<close> and empty, and \<open>KeyRune = 97\<close> both times: the second is left over from the
  first, since the parser assigns \<open>KeyRune\<close> only when the key text is not empty and has
  no branch that resets it. The same fields parsed into a new record give \<open>KeyRune = 0\<close>.
\<close>

theorem dispatch_leaves_stale_KeyRune:
  "map_option (map (KeyText \<circ> snd) \<circ> fst)
     (dispatches env0 ''bind'' [key_a, button_1] (snd (BindEvent env0 ''.b'' ''<Key>'' 1 world0)))
   = Some [''a'', '''']
   \<and> map_option (map (KeyRune \<circ> snd) \<circ> fst)
     (dispatches env0 ''bind'' [key_a, button_1] (snd (BindEvent env0 ''.b'' ''<Key>'' 1 world0)))
   = Some [97, 97]
   \<and> map_option KeyRune (parser (FindWidget env0) (IntSize env0) (zeroEvent None) button_1)
   = Some 0"
  by (simp add: BindEvent_world0 dispatch_def parse_key_a parse_button_1) (simp add: zeroEvent_def)

section \<open>Loading images\<close>

lemma NewImage_loop_file:
  "NewImage_loop i l (opts @ [Some \<lparr>key = ''file'', val = StringValue f\<rparr>]) =
     (fst (NewImage_loop i l opts), snd (NewImage_loop i l opts) @ [''-file {'' @ f @ ''}''])"
  by (induction i l opts rule: NewImage_loop.induct) (simp_all split: optvalue.split)

lemma Join_snoc: "xs \<noteq> [] \<Longrightarrow> Join (xs @ [x]) sep = Join xs sep @ sep @ x"
  by (induction xs sep rule: Join.induct) simp_all

lemma suffix_Join_snoc: "suffix x (Join (xs @ [x]) sep)"
proof (cases "xs = []")
  case True
  then show ?thesis by simp
next
  case False
  then have "Join (xs @ [x]) sep = (Join xs sep @ sep) @ x"
    by (simp add: Join_snoc)
  then show ?thesis
    by (metis suffixI)
qed

lemma NewImage_unfold:
  "NewImage E opts w =
     (let iid0 = fst (NewImage_loop [] [] opts);
          optList = snd (NewImage_loop [] [] opts);
          iid = (if iid0 = [] then image_id E (image_seq w) else iid0);
          w1 = (if iid0 = [] then w\<lparr>image_seq := Suc (image_seq w)\<rparr> else w);
          script = ''image create photo '' @ iid
                   @ (if optList = [] then [] else '' '' @ Join optList '' '');
          j = journal w @ [Eval script]
      in if eval_result E (journal w) script \<noteq> None then (None, w1\<lparr>journal := j\<rparr>)
         else
           (case photo_of E j iid of
              None \<Rightarrow> (None, w1\<lparr>journal := j @ [FindPhoto iid]\<rparr>)
            | Some p \<Rightarrow>
                (Some \<lparr>Image_id = iid, Image_photo = p\<rparr>, w1\<lparr>journal := j @ [FindPhoto iid]\<rparr>)))"
  by (simp add: NewImage_def MakeImageId_def eval_def interp_FindPhoto_def Let_def
      split: prod.split option.split)

text \<open>What \<open>NewImage\<close> asks of the interpreter: one script, then the photo when it passed.\<close>

lemma NewImage_calls:
  fixes w :: "('w, 'f, 'i) world"
  shows "\<exists>script rest. journal (snd (NewImage E opts w)) = journal w @ Eval script # rest
     \<and> prefix ''image create photo '' script
     \<and> (rest = [] \<or> (\<exists>i. rest = [FindPhoto i]))
     \<and> (\<forall>f opts'. opts = opts' @ [Some \<lparr>key = ''file'', val = StringValue f\<rparr>]
            \<longrightarrow> suffix (''-file {'' @ f @ ''}'') script)"
proof -
  define iid0 where "iid0 = fst (NewImage_loop [] [] opts)"
  define optList where "optList = snd (NewImage_loop [] [] opts)"
  define iid where "iid = (if iid0 = [] then image_id E (image_seq w) else iid0)"
  define tail where "tail = (if optList = [] then [] else '' '' @ Join optList '' '')"
  define script where "script = ''image create photo '' @ iid @ tail"
  define rest where "rest = (if eval_result E (journal w) script \<noteq> None then []
                            else [FindPhoto iid :: 'i call])"
  have j: "journal (snd (NewImage E opts w)) = journal w @ Eval script # rest"
    unfolding NewImage_unfold rest_def script_def tail_def iid_def iid0_def optList_def
    by (simp add: Let_def split: option.split)
  have p: "prefix ''image create photo '' script"
    unfolding script_def by (metis prefixI append.assoc)
  have r: "rest = [] \<or> (\<exists>i. rest = [FindPhoto i])"
    by (simp add: rest_def)
  have s: "suffix (''-file {'' @ f @ ''}'') script"
    if "opts = opts' @ [Some \<lparr>key = ''file'', val = StringValue f\<rparr>]" for f opts'
  proof -
    have ol: "optList = snd (NewImage_loop [] [] opts') @ [''-file {'' @ f @ ''}'']"
      by (simp add: optList_def that NewImage_loop_file)
    then have 1: "suffix (''-file {'' @ f @ ''}'') (Join optList '' '')"
      by (simp only: suffix_Join_snoc)
    have "optList \<noteq> []"
      using ol by simp
    then have "tail = '' '' @ Join optList '' ''"
      by (simp add: tail_def)
    with 1 have "suffix (''-file {'' @ f @ ''}'') tail"
      by (metis suffix_appendI)
    then have "suffix (''-file {'' @ f @ ''}'') ((''image create photo '' @ iid) @ tail)"
      by (rule suffix_appendI)
    then show ?thesis
      by (simp only: script_def append.assoc)
  qed
  from j p r s show ?thesis
    by blast
qed


lemma LoadImage_gif:
  assumes "file \<noteq> ''''" "Ext (IsPathSeparator E) file = ''.gif''"
  shows "LoadImage E file opts w =
    (case NewImage E (opts @ [Some \<lparr>key = ''file'', val = StringValue file\<rparr>]) w of
       (None, w') \<Rightarrow> (Inl NewImage_failed, w')
     | (Some im, w') \<Rightarrow> (Inr im, w'))"
  using assms by (simp add: LoadImage_def Let_def split: prod.split option.split)

lemma LoadImage_local:
  assumes "file \<noteq> ''''" "Ext (IsPathSeparator E) file \<noteq> ''.gif''"
  shows "LoadImage E file opts w =
    (case open_result E (journal w) file of
       Some err \<Rightarrow> (Inl err, w\<lparr>journal := journal w @ [Open file]\<rparr>)
     | None \<Rightarrow>
         (case decode_result E (journal w @ [Open file]) file of
            Inl err \<Rightarrow> (Inl err, w\<lparr>journal := journal w @ [Open file, Decode file, Close file]\<rparr>)
          | Inr img \<Rightarrow>
              (case NewImage E opts (w\<lparr>journal := journal w @ [Open file, Decode file, Close file]\<rparr>) of
                 (None, w') \<Rightarrow> (Inl NewImage_failed, w')
               | (Some im, w') \<Rightarrow>
                   (Inr im,
                    w'\<lparr>journal := journal w' @ PutImage (Image_photo im) img #
                         (case put_result E (journal w') (Image_photo im) img of
                            None \<Rightarrow> []
                          | Some e \<Rightarrow> [DumpError e])\<rparr>))))"
  using assms
  by (simp add: LoadImage_def os_Open_def image_Decode_def file_Close_def SetImage_def
      photo_PutImage_def dumpError_def Let_def split: prod.split option.split sum.split)

text \<open>
  C9, as stated, fails: the file \<open>x.png\<close> opens and decodes, but the interpreter rejects
  the \<^verbatim>\<open>image create photo\<close> script, so \<open>NewImage\<close> returns no image; \<open>LoadImage\<close>
  returns the error \<open>NewImage failed\<close> and the decoded image is put nowhere.
\<close>

theorem LoadImage_no_push_counterexample:
  "''x.png'' \<noteq> '''' \<and> Ext (IsPathSeparator env0) ''x.png'' \<noteq> ''.gif''
   \<and> open_result (env0\<lparr>eval_result := \<lambda>j s. Some (Foreign ''invalid command'')\<rparr>)
         (journal world0) ''x.png'' = None
   \<and> decode_result (env0\<lparr>eval_result := \<lambda>j s. Some (Foreign ''invalid command'')\<rparr>)
         (journal world0 @ [Open ''x.png'']) ''x.png'' = Inr [1, 2, 3]
   \<and> LoadImage (env0\<lparr>eval_result := \<lambda>j s. Some (Foreign ''invalid command'')\<rparr>) ''x.png'' []
         world0
       = (Inl NewImage_failed,
          world0\<lparr>journal := [Open ''x.png'', Decode ''x.png'', Close ''x.png'',
                             Eval ''image create photo image''],
                 image_seq := 1\<rparr>)"
proof -
  let ?E = "env0\<lparr>eval_result := \<lambda>j s. Some (Foreign ''invalid command'')\<rparr>"
  have p: "''x.png'' \<noteq> ''''" "Ext (IsPathSeparator env0) ''x.png'' \<noteq> ''.gif''"
    "Ext (IsPathSeparator ?E) ''x.png'' \<noteq> ''.gif''"
    by (simp_all add: Ext_def env0_def eval_nat_numeral)
  have o: "open_result ?E (journal world0) ''x.png'' = None"
    "decode_result ?E (journal world0 @ [Open ''x.png'']) ''x.png'' = Inr [1, 2, 3]"
    by (simp_all add: env0_def)
  have "LoadImage ?E ''x.png'' [] world0
       = (Inl NewImage_failed,
          world0\<lparr>journal := [Open ''x.png'', Decode ''x.png'', Close ''x.png'',
                             Eval ''image create photo image''],
                 image_seq := 1\<rparr>)"
    using LoadImage_local [OF p(1,3), of "[]" world0] o
    by (simp add: NewImage_unfold Let_def) (simp add: env0_def world0_def)
  with p(1,2) o show ?thesis
    by blast
qed

text \<open>
  C9, amended: \<open>LoadImage\<close> of the empty path returns \<open>os.ErrInvalid\<close> and leaves the
  world as it was. For a path whose extension is \<open>.gif\<close> it calls \<open>NewImage\<close> with the
  option \<open>file\<close> added: the interpreter is asked to evaluate one
  \<^verbatim>\<open>image create photo\<close> script that ends with \<^verbatim>\<open>-file {path}\<close>, then at most
  for the photo; no file is opened and nothing is decoded. For any other extension
  it opens the file and decodes it; an error of either is returned as it is; when the
  decoding succeeds it calls \<open>NewImage\<close> with the options it was given: when that
  returns an image, the decoded image is put into its photo, and when it returns none,
  the error is \<open>NewImage failed\<close> and nothing is put.
\<close>

theorem LoadImage_routes:
  fixes w :: "('w, 'f, 'i) world"
  shows "LoadImage E '''' opts w = (Inl os_ErrInvalid, w)
    \<and> (file \<noteq> '''' \<and> Ext (IsPathSeparator E) file = ''.gif'' \<longrightarrow>
          LoadImage E file opts w =
            (case NewImage E (opts @ [Some \<lparr>key = ''file'', val = StringValue file\<rparr>]) w of
               (None, w') \<Rightarrow> (Inl NewImage_failed, w')
             | (Some im, w') \<Rightarrow> (Inr im, w'))
          \<and> (\<exists>script rest.
                journal (snd (LoadImage E file opts w)) = journal w @ Eval script # rest
                \<and> prefix ''image create photo '' script
                \<and> suffix (''-file {'' @ file @ ''}'') script
                \<and> (rest = [] \<or> (\<exists>i. rest = [FindPhoto i]))))
    \<and> (file \<noteq> '''' \<and> Ext (IsPathSeparator E) file \<noteq> ''.gif'' \<longrightarrow>
          (open_result E (journal w) file = Some err \<longrightarrow>
             LoadImage E file opts w = (Inl err, w\<lparr>journal := journal w @ [Open file]\<rparr>))
          \<and> (open_result E (journal w) file = None
               \<and> decode_result E (journal w @ [Open file]) file = Inl err \<longrightarrow>
             LoadImage E file opts w
               = (Inl err, w\<lparr>journal := journal w @ [Open file, Decode file, Close file]\<rparr>))
          \<and> (open_result E (journal w) file = None
               \<and> decode_result E (journal w @ [Open file]) file = Inr img \<longrightarrow>
             LoadImage E file opts w =
               (case NewImage E opts (w\<lparr>journal := journal w @ [Open file, Decode file, Close file]\<rparr>) of
                  (None, w') \<Rightarrow> (Inl NewImage_failed, w')
                | (Some im, w') \<Rightarrow>
                    (Inr im,
                     w'\<lparr>journal := journal w' @ PutImage (Image_photo im) img #
                          (case put_result E (journal w') (Image_photo im) img of
                             None \<Rightarrow> []
                           | Some e \<Rightarrow> [DumpError e])\<rparr>))))"
proof -
  have 1: "LoadImage E '''' opts w = (Inl os_ErrInvalid, w)"
    by (simp add: LoadImage_def)
  have 2: "LoadImage E file opts w =
            (case NewImage E (opts @ [Some \<lparr>key = ''file'', val = StringValue file\<rparr>]) w of
               (None, w') \<Rightarrow> (Inl NewImage_failed, w')
             | (Some im, w') \<Rightarrow> (Inr im, w'))
          \<and> (\<exists>script rest.
                journal (snd (LoadImage E file opts w)) = journal w @ Eval script # rest
                \<and> prefix ''image create photo '' script
                \<and> suffix (''-file {'' @ file @ ''}'') script
                \<and> (rest = [] \<or> (\<exists>i. rest = [FindPhoto i])))"
    if gif: "file \<noteq> ''''" "Ext (IsPathSeparator E) file = ''.gif''"
  proof -
    let ?opts = "opts @ [Some \<lparr>key = ''file'', val = StringValue file\<rparr>]"
    note eq = LoadImage_gif [OF gif, of opts w]
    have "snd (LoadImage E file opts w) = snd (NewImage E ?opts w)"
      unfolding eq by (simp split: prod.split option.split)
    moreover obtain script rest
      where "journal (snd (NewImage E ?opts w)) = journal w @ Eval script # rest"
        and "prefix ''image create photo '' script"
        and "rest = [] \<or> (\<exists>i. rest = [FindPhoto i])"
        and "suffix (''-file {'' @ file @ ''}'') script"
      using NewImage_calls [of E ?opts w] by blast
    ultimately show ?thesis
      using eq by auto
  qed
  have 3: "(open_result E (journal w) file = Some err \<longrightarrow>
             LoadImage E file opts w = (Inl err, w\<lparr>journal := journal w @ [Open file]\<rparr>))
          \<and> (open_result E (journal w) file = None
               \<and> decode_result E (journal w @ [Open file]) file = Inl err \<longrightarrow>
             LoadImage E file opts w
               = (Inl err, w\<lparr>journal := journal w @ [Open file, Decode file, Close file]\<rparr>))
          \<and> (open_result E (journal w) file = None
               \<and> decode_result E (journal w @ [Open file]) file = Inr img \<longrightarrow>
             LoadImage E file opts w =
               (case NewImage E opts (w\<lparr>journal := journal w @ [Open file, Decode file, Close file]\<rparr>) of
                  (None, w') \<Rightarrow> (Inl NewImage_failed, w')
                | (Some im, w') \<Rightarrow>
                    (Inr im,
                     w'\<lparr>journal := journal w' @ PutImage (Image_photo im) img #
                          (case put_result E (journal w') (Image_photo im) img of
                             None \<Rightarrow> []
                           | Some e \<Rightarrow> [DumpError e])\<rparr>)))"
    if loc: "file \<noteq> ''''" "Ext (IsPathSeparator E) file \<noteq> ''.gif''"
    unfolding LoadImage_local [OF loc] by simp
  from 1 2 3 show ?thesis
    by blast
qed


theorem LoadImage_routes_witness:
  "LoadImage env0 '''' [] world0 = (Inl os_ErrInvalid, world0)
   \<and> ''x.gif'' \<noteq> '''' \<and> Ext (IsPathSeparator env0) ''x.gif'' = ''.gif''
   \<and> LoadImage env0 ''x.gif'' [] world0
       = (Inr \<lparr>Image_id = ''image'', Image_photo = 7\<rparr>,
          world0\<lparr>journal := [Eval ''image create photo image -file {x.gif}'', FindPhoto ''image''],
                 image_seq := 1\<rparr>)
   \<and> ''x.png'' \<noteq> '''' \<and> Ext (IsPathSeparator env0) ''x.png'' \<noteq> ''.gif''
   \<and> LoadImage env0 ''x.png'' [] world0
       = (Inr \<lparr>Image_id = ''image'', Image_photo = 7\<rparr>,
          world0\<lparr>journal := [Open ''x.png'', Decode ''x.png'', Close ''x.png'',
                             Eval ''image create photo image'', FindPhoto ''image'',
                             PutImage 7 [1, 2, 3]],
                 image_seq := 1\<rparr>)
   \<and> LoadImage (env0\<lparr>open_result := \<lambda>j f. Some (Foreign ''no such file'')\<rparr>) ''x.png'' [] world0
       = (Inl (Foreign ''no such file''), world0\<lparr>journal := [Open ''x.png'']\<rparr>)
   \<and> LoadImage (env0\<lparr>decode_result := \<lambda>j f. Inl (Foreign ''unknown format'')\<rparr>) ''x.png'' []
         world0
       = (Inl (Foreign ''unknown format''),
          world0\<lparr>journal := [Open ''x.png'', Decode ''x.png'', Close ''x.png'']\<rparr>)"
proof -
  let ?no = "env0\<lparr>open_result := \<lambda>j f. Some (Foreign ''no such file'')\<rparr>"
  let ?bad = "env0\<lparr>decode_result := \<lambda>j f. Inl (Foreign ''unknown format'')\<rparr>"
  have g: "''x.gif'' \<noteq> ''''" "Ext (IsPathSeparator env0) ''x.gif'' = ''.gif''"
    and p: "''x.png'' \<noteq> ''''" "Ext (IsPathSeparator env0) ''x.png'' \<noteq> ''.gif''"
    and p': "Ext (IsPathSeparator ?no) ''x.png'' \<noteq> ''.gif''"
      "Ext (IsPathSeparator ?bad) ''x.png'' \<noteq> ''.gif''"
    by (simp_all add: Ext_def env0_def eval_nat_numeral)
  have o: "open_result env0 (journal world0) ''x.png'' = None"
    "decode_result env0 (journal world0 @ [Open ''x.png'']) ''x.png'' = Inr [1, 2, 3]"
    "open_result ?no (journal world0) ''x.png'' = Some (Foreign ''no such file'')"
    "open_result ?bad (journal world0) ''x.png'' = None"
    "decode_result ?bad (journal world0 @ [Open ''x.png'']) ''x.png''
       = Inl (Foreign ''unknown format'')"
    by (simp_all add: env0_def)
  note a = LoadImage_routes [of env0 "[]" world0 "''x.gif''"]
  note b = LoadImage_routes [of env0 "[]" world0 "''x.png''" _ "[1, 2, 3]"]
  note c = LoadImage_routes [of ?no "[]" world0 "''x.png''" "Foreign ''no such file''"]
  note d = LoadImage_routes [of ?bad "[]" world0 "''x.png''" "Foreign ''unknown format''"]
  have 1: "LoadImage env0 '''' [] world0 = (Inl os_ErrInvalid, world0)"
    using a by blast
  have 2: "LoadImage env0 ''x.gif'' [] world0
       = (Inr \<lparr>Image_id = ''image'', Image_photo = 7\<rparr>,
          world0\<lparr>journal := [Eval ''image create photo image -file {x.gif}'', FindPhoto ''image''],
                 image_seq := 1\<rparr>)"
    using a g by (simp add: NewImage_unfold Let_def) (simp add: env0_def world0_def)
  have 3: "LoadImage env0 ''x.png'' [] world0
       = (Inr \<lparr>Image_id = ''image'', Image_photo = 7\<rparr>,
          world0\<lparr>journal := [Open ''x.png'', Decode ''x.png'', Close ''x.png'',
                             Eval ''image create photo image'', FindPhoto ''image'',
                             PutImage 7 [1, 2, 3]],
                 image_seq := 1\<rparr>)"
    using b p o(1,2) by (simp add: NewImage_unfold Let_def) (simp add: env0_def world0_def)
  have 4: "LoadImage ?no ''x.png'' [] world0
       = (Inl (Foreign ''no such file''), world0\<lparr>journal := [Open ''x.png'']\<rparr>)"
    using c p(1) p'(1) o(3) by (simp add: world0_def)
  have 5: "LoadImage ?bad ''x.png'' [] world0
       = (Inl (Foreign ''unknown format''),
          world0\<lparr>journal := [Open ''x.png'', Decode ''x.png'', Close ''x.png'']\<rparr>)"
    using d p(1) p'(2) o(4,5) by (simp add: world0_def)
  from 1 2 3 4 5 g p show ?thesis
    by blast
qed

end
